theory Spec2Isabelle
  imports Main "HOL-Library.Word"
begin

unbundle bit_operations_syntax

section \<open>Constants of cpu.c\<close>

text \<open>
  The i386 CPU module (\<^verbatim>\<open>cpu.c\<close>) works on 32-bit unsigned values (\<^verbatim>\<open>uint32_t\<close>,
  \<^verbatim>\<open>uintptr_t\<close>), 16-bit table limits, 8-bit type codes and 64-bit descriptors.
  The \<^verbatim>\<open>#define\<close> constants are integer constants used in unsigned 32-bit expressions.
\<close>

definition KERNEL_CS_32 :: "32 word" where "KERNEL_CS_32 = 0x08"
definition KERNEL_DS_32 :: "32 word" where "KERNEL_DS_32 = 0x10"
definition KERNEL_CS_16 :: "32 word" where "KERNEL_CS_16 = 0x18"
definition KERNEL_DS_16 :: "32 word" where "KERNEL_DS_16 = 0x20"
definition USER_CS_32 :: "32 word" where "USER_CS_32 = 0x28"
definition USER_DS_32 :: "32 word" where "USER_DS_32 = 0x30"
definition TSS_SEGMENT :: "32 word" where "TSS_SEGMENT = 0x38"

definition KERNEL_CODE_SEGMENT_BASE_32 :: "32 word" where "KERNEL_CODE_SEGMENT_BASE_32 = 0x00000000"
definition KERNEL_CODE_SEGMENT_LIMIT_32 :: "32 word" where "KERNEL_CODE_SEGMENT_LIMIT_32 = 0x000FFFFF"
definition KERNEL_DATA_SEGMENT_BASE_32 :: "32 word" where "KERNEL_DATA_SEGMENT_BASE_32 = 0x00000000"
definition KERNEL_DATA_SEGMENT_LIMIT_32 :: "32 word" where "KERNEL_DATA_SEGMENT_LIMIT_32 = 0x000FFFFF"
definition KERNEL_CODE_SEGMENT_BASE_16 :: "32 word" where "KERNEL_CODE_SEGMENT_BASE_16 = 0x00000000"
definition KERNEL_CODE_SEGMENT_LIMIT_16 :: "32 word" where "KERNEL_CODE_SEGMENT_LIMIT_16 = 0x000FFFFF"
definition KERNEL_DATA_SEGMENT_BASE_16 :: "32 word" where "KERNEL_DATA_SEGMENT_BASE_16 = 0x00000000"
definition KERNEL_DATA_SEGMENT_LIMIT_16 :: "32 word" where "KERNEL_DATA_SEGMENT_LIMIT_16 = 0x000FFFFF"
definition USER_CODE_SEGMENT_BASE_32 :: "32 word" where "USER_CODE_SEGMENT_BASE_32 = 0x00000000"
definition USER_CODE_SEGMENT_LIMIT_32 :: "32 word" where "USER_CODE_SEGMENT_LIMIT_32 = 0x000FFFFF"
definition USER_DATA_SEGMENT_BASE_32 :: "32 word" where "USER_DATA_SEGMENT_BASE_32 = 0x00000000"
definition USER_DATA_SEGMENT_LIMIT_32 :: "32 word" where "USER_DATA_SEGMENT_LIMIT_32 = 0x000FFFFF"

definition GDT_FLAG_GRANULARITY_4K :: "32 word" where "GDT_FLAG_GRANULARITY_4K = 0x800000"
definition GDT_FLAG_GRANULARITY_BYTE :: "32 word" where "GDT_FLAG_GRANULARITY_BYTE = 0x000000"
definition GDT_FLAG_16_BIT_SEGMENT :: "32 word" where "GDT_FLAG_16_BIT_SEGMENT = 0x000000"
definition GDT_FLAG_32_BIT_SEGMENT :: "32 word" where "GDT_FLAG_32_BIT_SEGMENT = 0x400000"
definition GDT_FLAG_64_BIT_SEGMENT :: "32 word" where "GDT_FLAG_64_BIT_SEGMENT = 0x200000"
definition GDT_FLAG_AVL :: "32 word" where "GDT_FLAG_AVL = 0x100000"
definition GDT_FLAG_SEGMENT_PRESENT :: "32 word" where "GDT_FLAG_SEGMENT_PRESENT = 0x008000"
definition GDT_FLAG_PL0 :: "32 word" where "GDT_FLAG_PL0 = 0x000000"
definition GDT_FLAG_PL1 :: "32 word" where "GDT_FLAG_PL1 = 0x002000"
definition GDT_FLAG_PL2 :: "32 word" where "GDT_FLAG_PL2 = 0x004000"
definition GDT_FLAG_PL3 :: "32 word" where "GDT_FLAG_PL3 = 0x006000"
definition GDT_FLAG_CODE_TYPE :: "32 word" where "GDT_FLAG_CODE_TYPE = 0x001000"
definition GDT_FLAG_DATA_TYPE :: "32 word" where "GDT_FLAG_DATA_TYPE = 0x001000"
definition GDT_FLAG_SYSTEM_TYPE :: "32 word" where "GDT_FLAG_SYSTEM_TYPE = 0x000000"

definition GDT_TYPE_EXECUTABLE :: "32 word" where "GDT_TYPE_EXECUTABLE = 0x8"
definition GDT_TYPE_GROW_UP :: "32 word" where "GDT_TYPE_GROW_UP = 0x4"
definition GDT_TYPE_GROW_DOWN :: "32 word" where "GDT_TYPE_GROW_DOWN = 0x0"
definition GDT_TYPE_CONFORMING :: "32 word" where "GDT_TYPE_CONFORMING = 0x4"
definition GDT_TYPE_PROTECTED :: "32 word" where "GDT_TYPE_PROTECTED = 0x0"
definition GDT_TYPE_READABLE :: "32 word" where "GDT_TYPE_READABLE = 0x2"
definition GDT_TYPE_WRITABLE :: "32 word" where "GDT_TYPE_WRITABLE = 0x2"
definition GDT_TYPE_ACCESSED :: "32 word" where "GDT_TYPE_ACCESSED = 0x1"

definition IDT_FLAG_STORAGE_SEG :: "32 word" where "IDT_FLAG_STORAGE_SEG = 0x10"
definition IDT_FLAG_PL0 :: "32 word" where "IDT_FLAG_PL0 = 0x00"
definition IDT_FLAG_PL1 :: "32 word" where "IDT_FLAG_PL1 = 0x20"
definition IDT_FLAG_PL2 :: "32 word" where "IDT_FLAG_PL2 = 0x40"
definition IDT_FLAG_PL3 :: "32 word" where "IDT_FLAG_PL3 = 0x60"
definition IDT_FLAG_PRESENT :: "32 word" where "IDT_FLAG_PRESENT = 0x80"

definition IDT_TYPE_TASK_GATE :: "8 word" where "IDT_TYPE_TASK_GATE = 0x05"
definition IDT_TYPE_INT_GATE :: "8 word" where "IDT_TYPE_INT_GATE = 0x0E"
definition IDT_TYPE_TRAP_GATE :: "8 word" where "IDT_TYPE_TRAP_GATE = 0x0F"

text \<open>
  Modelled from the spec: \<^verbatim>\<open>IDT_ENTRY_COUNT\<close> is declared in \<^verbatim>\<open>cpu_interrupt.h\<close>, which is
  not part of the sources at hand. The specification fixes the gate table at exactly 256
  entries, one per vector 0..255, and the initialiser of \<^verbatim>\<open>cpu_int_handlers\<close> lists
  exactly 256 trampolines.
\<close>

definition IDT_ENTRY_COUNT :: nat where "IDT_ENTRY_COUNT = 256"

section \<open>Build configuration\<close>

text \<open>
  The remaining constants come from \<^verbatim>\<open>config.h\<close>, \<^verbatim>\<open>cpu_interrupt.h\<close> and the linker; they
  are parameters of the model. \<^verbatim>\<open>KERNEL_STACKS_BASE\<close> is the address of the linker symbol
  \<^verbatim>\<open>_KERNEL_STACKS_BASE\<close>, \<^verbatim>\<open>interrupt_handler n\<close> the address of the assembly trampoline
  \<^verbatim>\<open>interrupt_handler_n\<close>, and \<^verbatim>\<open>cpu_gdt_addr\<close>, \<^verbatim>\<open>cpu_idt_addr\<close>, \<^verbatim>\<open>cpu_tss_addr\<close> the addresses
  of the three static tables.
\<close>

record config =
  MAX_CPU_COUNT :: nat
  KERNEL_STACK_SIZE :: "32 word"
  KERNEL_STACKS_BASE :: "32 word"
  MAX_INTERRUPT_LINE :: "32 word"
  CPU_DEBUG_ENABLED :: bool
  interrupt_handler :: "nat \<Rightarrow> 32 word"
  cpu_gdt_addr :: "32 word"
  cpu_idt_addr :: "32 word"
  cpu_tss_addr :: "32 word"

definition GDT_ENTRY_COUNT :: "config \<Rightarrow> nat" where
  "GDT_ENTRY_COUNT cfg = 7 + MAX_CPU_COUNT cfg"

section \<open>Descriptor encoders\<close>

text \<open>
  \<^verbatim>\<open>_format_gdt_entry\<close> and \<^verbatim>\<open>_format_idt_entry\<close> write one 64-bit descriptor through their
  \<^verbatim>\<open>entry\<close> pointer; the model returns the value written. The \<^verbatim>\<open>unsigned char\<close> type code
  is promoted before it is shifted.
\<close>

definition format_gdt_entry :: "32 word \<Rightarrow> 32 word \<Rightarrow> 8 word \<Rightarrow> 32 word \<Rightarrow> 64 word" where
  "format_gdt_entry base limit type flags =
    (let lo_part = push_bit 16 (base AND 0xFFFF) OR (limit AND 0xFFFF);
         hi_part = drop_bit 16 base AND 0xFF;
         hi_part = hi_part OR push_bit 8 (ucast (type AND 0xF));
         hi_part = hi_part OR (flags AND 0x00F0F000);
         hi_part = hi_part OR (limit AND 0xF0000);
         hi_part = hi_part OR (base AND 0xFF000000)
     in ucast lo_part OR push_bit 32 (ucast hi_part))"

definition format_idt_entry :: "32 word \<Rightarrow> 8 word \<Rightarrow> 32 word \<Rightarrow> 64 word" where
  "format_idt_entry handler type flags =
    (let lo_part = push_bit 16 KERNEL_CS_32 OR (handler AND 0x0000FFFF);
         hi_part = (handler AND 0xFFFF0000) OR
                   push_bit 8 (flags AND 0xF0) OR push_bit 8 (ucast (type AND 0x0F))
     in ucast lo_part OR push_bit 32 (ucast hi_part))"

subsection \<open>Reading a descriptor back\<close>

text \<open>
  The source has no decoder. The readers below follow the documented bit positions of the
  two 8-byte records: for a segment, limit[15:0] in bits 15..0, base[15:0] in bits 31..16,
  base[23:16] in bits 39..32, the type nibble in bits 43..40, the flag bits in bits 47..44
  and 55..52 (reported at their input positions 15..12 and 23..20), limit[19:16] in bits
  51..48 and base[31:24] in bits 63..56; for a gate, handler[15:0] in bits 15..0, the
  selector in bits 31..16, the type nibble in bits 43..40, the high nibble of the flag byte
  in bits 47..44 (bit 44 storage segment, bits 46..45 privilege level, bit 47 present) and
  handler[31:16] in bits 63..48.
\<close>

definition gdt_entry_base :: "64 word \<Rightarrow> 32 word" where
  "gdt_entry_base e = ucast (take_bit 16 (drop_bit 16 e))
                      OR push_bit 16 (ucast (take_bit 8 (drop_bit 32 e)))
                      OR push_bit 24 (ucast (take_bit 8 (drop_bit 56 e)))"

definition gdt_entry_limit :: "64 word \<Rightarrow> 32 word" where
  "gdt_entry_limit e = ucast (take_bit 16 e) OR push_bit 16 (ucast (take_bit 4 (drop_bit 48 e)))"

definition gdt_entry_type :: "64 word \<Rightarrow> 8 word" where
  "gdt_entry_type e = ucast (take_bit 4 (drop_bit 40 e))"

definition gdt_entry_flags :: "64 word \<Rightarrow> 32 word" where
  "gdt_entry_flags e = push_bit 12 (ucast (take_bit 4 (drop_bit 44 e)))
                       OR push_bit 20 (ucast (take_bit 4 (drop_bit 52 e)))"

definition gdt_entry_present :: "64 word \<Rightarrow> bool" where
  "gdt_entry_present e = bit e 47"

definition idt_entry_handler :: "64 word \<Rightarrow> 32 word" where
  "idt_entry_handler e = ucast (take_bit 16 e) OR push_bit 16 (ucast (take_bit 16 (drop_bit 48 e)))"

definition idt_entry_selector :: "64 word \<Rightarrow> 32 word" where
  "idt_entry_selector e = ucast (take_bit 16 (drop_bit 16 e))"

definition idt_entry_type :: "64 word \<Rightarrow> 8 word" where
  "idt_entry_type e = ucast (take_bit 4 (drop_bit 40 e))"

definition idt_entry_flags :: "64 word \<Rightarrow> 32 word" where
  "idt_entry_flags e = push_bit 4 (ucast (take_bit 4 (drop_bit 44 e)))"

definition idt_entry_dpl :: "64 word \<Rightarrow> 8 word" where
  "idt_entry_dpl e = ucast (take_bit 2 (drop_bit 45 e))"

definition idt_entry_present :: "64 word \<Rightarrow> bool" where
  "idt_entry_present e = bit e 47"

section \<open>Data model\<close>

text \<open>
  \<^verbatim>\<open>gdt_ptr_t\<close> and \<^verbatim>\<open>idt_ptr_t\<close> are the packed pseudo-descriptors (16-bit size, 32-bit
  base); their fields carry the table's name as a prefix, since the two structures share
  field names in the source.
\<close>

record gdt_ptr_t =
  gdt_size :: "16 word"
  gdt_base :: "32 word"

record idt_ptr_t =
  idt_size :: "16 word"
  idt_base :: "32 word"

record cpu_tss_entry_t =
  prev_tss :: "32 word"
  esp0 :: "32 word"
  ss0 :: "32 word"
  esp1 :: "32 word"
  ss1 :: "32 word"
  esp2 :: "32 word"
  ss2 :: "32 word"
  cr3 :: "32 word"
  eip :: "32 word"
  eflags :: "32 word"
  eax :: "32 word"
  ecx :: "32 word"
  edx :: "32 word"
  ebx :: "32 word"
  esp :: "32 word"
  ebp :: "32 word"
  esi :: "32 word"
  edi :: "32 word"
  es :: "32 word"
  cs :: "32 word"
  ss :: "32 word"
  ds :: "32 word"
  fs :: "32 word"
  gs :: "32 word"
  ldt :: "32 word"
  reserved :: "16 word"
  iomap_base :: "16 word"

text \<open>
  \<^verbatim>\<open>sizeof(cpu_tss_entry_t)\<close>: the structure is packed, 25 fields of four bytes and 2 of
  two bytes.
\<close>

definition sizeof_cpu_tss_entry_t :: nat where
  "sizeof_cpu_tss_entry_t = 25 * 4 + 2 * 2"

text \<open>The all-zero record that \<^verbatim>\<open>memset\<close> leaves in every slot of \<^verbatim>\<open>cpu_tss\<close>.\<close>

definition zero_tss_entry :: cpu_tss_entry_t where
  "zero_tss_entry =
    \<lparr>prev_tss = 0, esp0 = 0, ss0 = 0, esp1 = 0, ss1 = 0, esp2 = 0, ss2 = 0, cr3 = 0, eip = 0,
     eflags = 0, eax = 0, ecx = 0, edx = 0, ebx = 0, esp = 0, ebp = 0, esi = 0, edi = 0,
     es = 0, cs = 0, ss = 0, ds = 0, fs = 0, gs = 0, ldt = 0, reserved = 0, iomap_base = 0\<rparr>"

datatype OS_RETURN_E = OS_NO_ERR | OS_ERR_UNAUTHORIZED_ACTION

datatype trace_event =
    EVENT_KERNEL_CPU_SET_GDT_START
  | EVENT_KERNEL_CPU_SET_GDT_END
  | EVENT_KERNEL_CPU_SET_IDT_START
  | EVENT_KERNEL_CPU_SET_IDT_END
  | EVENT_KERNEL_CPU_SET_TSS_START
  | EVENT_KERNEL_CPU_SET_TSS_END
  | EVENT_KERNEL_CPU_SETUP_START
  | EVENT_KERNEL_CPU_SETUP_END
  | EVENT_KERNEL_CPU_RAISE_INT_START
  | EVENT_KERNEL_CPU_RAISE_INT_END

datatype trace_arg = ArgWord "32 word" | ArgRet OS_RETURN_E

text \<open>
  What the module does to the outside, in program order: records handed to the trace
  buffer and to the kernel logger, and the software interrupt instruction \<^verbatim>\<open>int $n\<close>.
  The handler that the processor runs on \<^verbatim>\<open>int $n\<close> belongs to other modules; the model
  records the trap and nothing of what that handler does.
\<close>

datatype effect =
    KERNEL_TRACE_EVENT trace_event "trace_arg list"
  | KERNEL_DEBUG string "trace_arg list"
  | KERNEL_SUCCESS string "trace_arg list"
  | ASM_INT nat

text \<open>
  The static variables of \<^verbatim>\<open>cpu.c\<close>, the processor registers its inline assembly loads
  (\<^verbatim>\<open>lgdt\<close>, \<^verbatim>\<open>lidt\<close>, \<^verbatim>\<open>ltr\<close>, the segment registers) and the sequence of effects so far.
\<close>

record cpu_state =
  cpu_gdt :: "64 word list"
  cpu_gdt_ptr :: gdt_ptr_t
  cpu_idt :: "64 word list"
  cpu_idt_ptr :: idt_ptr_t
  cpu_tss :: "cpu_tss_entry_t list"
  cpu_int_handlers :: "32 word list"
  reg_gdtr :: "16 word \<times> 32 word"
  reg_idtr :: "16 word \<times> 32 word"
  reg_tr :: "16 word"
  reg_ds :: "16 word"
  reg_es :: "16 word"
  reg_fs :: "16 word"
  reg_gs :: "16 word"
  reg_ss :: "16 word"
  reg_cs :: "16 word"
  effects :: "effect list"

text \<open>
  The initialiser of \<^verbatim>\<open>cpu_int_handlers\<close>: the addresses of \<^verbatim>\<open>interrupt_handler_0\<close> to
  \<^verbatim>\<open>interrupt_handler_255\<close>, in this order.
\<close>

definition cpu_int_handlers_init :: "config \<Rightarrow> 32 word list" where
  "cpu_int_handlers_init cfg = map (interrupt_handler cfg) [0..<256]"

text \<open>
  Static storage before \<^verbatim>\<open>cpu_init\<close> has run: the tables and the pseudo-descriptors are
  zero, the handler table holds its initialiser. The registers are whatever the boot code
  left, here \<^verbatim>\<open>r\<close>.
\<close>

definition boot_state :: "config \<Rightarrow> cpu_state \<Rightarrow> cpu_state" where
  "boot_state cfg r =
     r\<lparr>cpu_gdt := replicate (GDT_ENTRY_COUNT cfg) 0,
       cpu_gdt_ptr := \<lparr>gdt_size = 0, gdt_base = 0\<rparr>,
       cpu_idt := replicate IDT_ENTRY_COUNT 0,
       cpu_idt_ptr := \<lparr>idt_size = 0, idt_base = 0\<rparr>,
       cpu_tss := replicate (MAX_CPU_COUNT cfg) zero_tss_entry,
       cpu_int_handlers := cpu_int_handlers_init cfg,
       effects := []\<rparr>"

section \<open>Tracing and logging\<close>

text \<open>
  \<^verbatim>\<open>KERNEL_TRACE_EVENT\<close>, \<^verbatim>\<open>KERNEL_DEBUG\<close> and \<^verbatim>\<open>KERNEL_SUCCESS\<close> are macros of headers that
  are not part of the sources at hand; each hands one record to a diagnostic sink.
  \<^verbatim>\<open>KERNEL_DEBUG\<close> takes the module's debug switch \<^verbatim>\<open>CPU_DEBUG_ENABLED\<close> as its first
  argument and is taken to log only when the switch is set.
\<close>

definition kernel_trace_event :: "trace_event \<Rightarrow> trace_arg list \<Rightarrow> cpu_state \<Rightarrow> cpu_state" where
  "kernel_trace_event ev args s = s\<lparr>effects := effects s @ [KERNEL_TRACE_EVENT ev args]\<rparr>"

definition kernel_debug :: "config \<Rightarrow> string \<Rightarrow> trace_arg list \<Rightarrow> cpu_state \<Rightarrow> cpu_state" where
  "kernel_debug cfg msg args s =
     (if CPU_DEBUG_ENABLED cfg then s\<lparr>effects := effects s @ [KERNEL_DEBUG msg args]\<rparr> else s)"

definition kernel_success :: "string \<Rightarrow> trace_arg list \<Rightarrow> cpu_state \<Rightarrow> cpu_state" where
  "kernel_success msg args s = s\<lparr>effects := effects s @ [KERNEL_SUCCESS msg args]\<rparr>"

section \<open>Segment table setup\<close>

text \<open>The store \<^verbatim>\<open>*entry = ...\<close> with \<^verbatim>\<open>entry = &cpu_gdt[idx]\<close>.\<close>

definition gdt_store :: "nat \<Rightarrow> 64 word \<Rightarrow> cpu_state \<Rightarrow> cpu_state" where
  "gdt_store idx v s = s\<lparr>cpu_gdt := (cpu_gdt s)[idx := v]\<rparr>"

text \<open>
  The loop over the cores in \<^verbatim>\<open>_cpu_setup_gdt\<close>. The index expression
  \<^verbatim>\<open>(TSS_SEGMENT + i * 0x08) / 8\<close> and the address \<^verbatim>\<open>&cpu_tss[i]\<close> are computed on 32 bits.
\<close>

function gdt_tss_loop :: "config \<Rightarrow> 32 word \<Rightarrow> 32 word \<Rightarrow> nat \<Rightarrow> cpu_state \<Rightarrow> cpu_state" where
  "gdt_tss_loop cfg tss_seg_type tss_seg_flags i s =
     (if i < MAX_CPU_COUNT cfg then
        gdt_tss_loop cfg tss_seg_type tss_seg_flags (i + 1)
          (gdt_store (unat ((TSS_SEGMENT + of_nat i * 0x08) div 8))
             (format_gdt_entry (cpu_tss_addr cfg + of_nat i * of_nat sizeof_cpu_tss_entry_t)
                (of_nat sizeof_cpu_tss_entry_t) (ucast tss_seg_type) tss_seg_flags) s)
      else s)"
  by pat_completeness auto
termination
  by (relation "measure (\<lambda>(cfg, ty, fl, i, s). MAX_CPU_COUNT cfg - i)") auto

declare gdt_tss_loop.simps [simp del]

definition cpu_setup_gdt :: "config \<Rightarrow> cpu_state \<Rightarrow> cpu_state" where
  "cpu_setup_gdt cfg s0 =
    (let s = kernel_trace_event EVENT_KERNEL_CPU_SET_GDT_START [] s0;
         s = kernel_debug cfg ''Setting GDT'' [] s;
         kernel_code_seg_flags = GDT_FLAG_GRANULARITY_4K OR GDT_FLAG_32_BIT_SEGMENT OR
                                 GDT_FLAG_PL0 OR GDT_FLAG_SEGMENT_PRESENT OR GDT_FLAG_CODE_TYPE;
         kernel_code_seg_type = GDT_TYPE_EXECUTABLE OR GDT_TYPE_READABLE OR GDT_TYPE_PROTECTED;
         kernel_data_seg_flags = GDT_FLAG_GRANULARITY_4K OR GDT_FLAG_32_BIT_SEGMENT OR
                                 GDT_FLAG_PL0 OR GDT_FLAG_SEGMENT_PRESENT OR GDT_FLAG_DATA_TYPE;
         kernel_data_seg_type = GDT_TYPE_WRITABLE OR GDT_TYPE_GROW_DOWN;
         kernel_code_16_seg_flags = GDT_FLAG_GRANULARITY_4K OR GDT_FLAG_16_BIT_SEGMENT OR
                                    GDT_FLAG_PL0 OR GDT_FLAG_SEGMENT_PRESENT OR GDT_FLAG_CODE_TYPE;
         kernel_code_16_seg_type = GDT_TYPE_EXECUTABLE OR GDT_TYPE_READABLE OR GDT_TYPE_PROTECTED;
         kernel_data_16_seg_flags = GDT_FLAG_GRANULARITY_4K OR GDT_FLAG_16_BIT_SEGMENT OR
                                    GDT_FLAG_PL0 OR GDT_FLAG_SEGMENT_PRESENT OR GDT_FLAG_DATA_TYPE;
         kernel_data_16_seg_type = GDT_TYPE_WRITABLE OR GDT_TYPE_GROW_DOWN;
         user_code_32_seg_flags = GDT_FLAG_GRANULARITY_4K OR GDT_FLAG_32_BIT_SEGMENT OR
                                  GDT_FLAG_PL3 OR GDT_FLAG_SEGMENT_PRESENT OR GDT_FLAG_CODE_TYPE;
         user_code_32_seg_type = GDT_TYPE_EXECUTABLE OR GDT_TYPE_READABLE OR GDT_TYPE_PROTECTED;
         user_data_32_seg_flags = GDT_FLAG_GRANULARITY_4K OR GDT_FLAG_32_BIT_SEGMENT OR
                                  GDT_FLAG_PL3 OR GDT_FLAG_SEGMENT_PRESENT OR GDT_FLAG_DATA_TYPE;
         user_data_32_seg_type = GDT_TYPE_WRITABLE OR GDT_TYPE_GROW_DOWN;
         tss_seg_flags = GDT_FLAG_32_BIT_SEGMENT OR GDT_FLAG_SEGMENT_PRESENT OR GDT_FLAG_PL0;
         tss_seg_type = GDT_TYPE_ACCESSED OR GDT_TYPE_EXECUTABLE;
         s = s\<lparr>cpu_gdt := replicate (GDT_ENTRY_COUNT cfg) 0\<rparr>;
         s = gdt_store (unat (KERNEL_CS_32 div 8))
               (format_gdt_entry KERNEL_CODE_SEGMENT_BASE_32 KERNEL_CODE_SEGMENT_LIMIT_32
                  (ucast kernel_code_seg_type) kernel_code_seg_flags) s;
         s = gdt_store (unat (KERNEL_DS_32 div 8))
               (format_gdt_entry KERNEL_DATA_SEGMENT_BASE_32 KERNEL_DATA_SEGMENT_LIMIT_32
                  (ucast kernel_data_seg_type) kernel_data_seg_flags) s;
         s = gdt_store (unat (KERNEL_CS_16 div 8))
               (format_gdt_entry KERNEL_CODE_SEGMENT_BASE_16 KERNEL_CODE_SEGMENT_LIMIT_16
                  (ucast kernel_code_16_seg_type) kernel_code_16_seg_flags) s;
         s = gdt_store (unat (KERNEL_DS_16 div 8))
               (format_gdt_entry KERNEL_DATA_SEGMENT_BASE_16 KERNEL_DATA_SEGMENT_LIMIT_16
                  (ucast kernel_data_16_seg_type) kernel_data_16_seg_flags) s;
         s = gdt_store (unat (USER_CS_32 div 8))
               (format_gdt_entry USER_CODE_SEGMENT_BASE_32 USER_CODE_SEGMENT_LIMIT_32
                  (ucast user_code_32_seg_type) user_code_32_seg_flags) s;
         s = gdt_store (unat (USER_DS_32 div 8))
               (format_gdt_entry USER_DATA_SEGMENT_BASE_32 USER_DATA_SEGMENT_LIMIT_32
                  (ucast user_data_32_seg_type) user_data_32_seg_flags) s;
         s = gdt_tss_loop cfg tss_seg_type tss_seg_flags 0 s;
         s = s\<lparr>cpu_gdt_ptr := \<lparr>gdt_size = ucast (8 * of_nat (GDT_ENTRY_COUNT cfg) - 1 :: 32 word),
                                gdt_base = cpu_gdt_addr cfg\<rparr>\<rparr>;
         s = s\<lparr>reg_gdtr := (gdt_size (cpu_gdt_ptr s), gdt_base (cpu_gdt_ptr s))\<rparr>;
         s = s\<lparr>reg_ds := ucast KERNEL_DS_32, reg_es := ucast KERNEL_DS_32,
               reg_fs := ucast KERNEL_DS_32, reg_gs := ucast KERNEL_DS_32,
               reg_ss := ucast KERNEL_DS_32\<rparr>;
         s = s\<lparr>reg_cs := ucast KERNEL_CS_32\<rparr>;
         s = kernel_success ''GDT Initialized at 0x%P\<newline>'' [ArgWord (gdt_base (cpu_gdt_ptr s))] s
     in kernel_trace_event EVENT_KERNEL_CPU_SET_GDT_END
          [ArgWord (gdt_base (cpu_gdt_ptr s)), ArgWord 0] s)"

section \<open>Gate table setup\<close>

function idt_loop :: "nat \<Rightarrow> cpu_state \<Rightarrow> cpu_state" where
  "idt_loop i s =
     (if i < IDT_ENTRY_COUNT then
        idt_loop (i + 1)
          (s\<lparr>cpu_idt := (cpu_idt s)[i :=
               format_idt_entry (cpu_int_handlers s ! i) IDT_TYPE_INT_GATE
                 (IDT_FLAG_PRESENT OR IDT_FLAG_PL0)]\<rparr>)
      else s)"
  by pat_completeness auto
termination
  by (relation "measure (\<lambda>(i, s). IDT_ENTRY_COUNT - i)") auto

declare idt_loop.simps [simp del]

definition cpu_setup_idt :: "config \<Rightarrow> cpu_state \<Rightarrow> cpu_state" where
  "cpu_setup_idt cfg s0 =
    (let s = kernel_trace_event EVENT_KERNEL_CPU_SET_IDT_START [] s0;
         s = kernel_debug cfg ''Setting IDT'' [] s;
         s = s\<lparr>cpu_idt := replicate IDT_ENTRY_COUNT 0\<rparr>;
         s = idt_loop 0 s;
         s = s\<lparr>cpu_idt_ptr := \<lparr>idt_size = ucast (8 * of_nat IDT_ENTRY_COUNT - 1 :: 32 word),
                                idt_base = cpu_idt_addr cfg\<rparr>\<rparr>;
         s = s\<lparr>reg_idtr := (idt_size (cpu_idt_ptr s), idt_base (cpu_idt_ptr s))\<rparr>;
         s = kernel_success ''IDT Initialized at 0x%P\<newline>'' [ArgWord (idt_base (cpu_idt_ptr s))] s
     in kernel_trace_event EVENT_KERNEL_CPU_SET_IDT_END
          [ArgWord (idt_base (cpu_idt_ptr s)), ArgWord 0] s)"

section \<open>Task state setup\<close>

function tss_loop :: "config \<Rightarrow> nat \<Rightarrow> cpu_state \<Rightarrow> cpu_state" where
  "tss_loop cfg i s =
     (if i < MAX_CPU_COUNT cfg then
        tss_loop cfg (i + 1)
          (s\<lparr>cpu_tss := (cpu_tss s)[i := (cpu_tss s ! i)
               \<lparr>ss0 := KERNEL_DS_32,
                esp0 := KERNEL_STACKS_BASE cfg + KERNEL_STACK_SIZE cfg * (of_nat i + 1) - 4,
                es := KERNEL_DS_32,
                cs := KERNEL_CS_32,
                ss := KERNEL_DS_32,
                ds := KERNEL_DS_32,
                fs := KERNEL_DS_32,
                gs := KERNEL_DS_32,
                iomap_base := of_nat sizeof_cpu_tss_entry_t\<rparr>]\<rparr>)
      else s)"
  by pat_completeness auto
termination
  by (relation "measure (\<lambda>(cfg, i, s). MAX_CPU_COUNT cfg - i)") auto

declare tss_loop.simps [simp del]

definition cpu_setup_tss :: "config \<Rightarrow> cpu_state \<Rightarrow> cpu_state" where
  "cpu_setup_tss cfg s0 =
    (let s = kernel_trace_event EVENT_KERNEL_CPU_SET_TSS_START [] s0;
         s = kernel_debug cfg ''Setting TSS'' [] s;
         s = s\<lparr>cpu_tss := replicate (MAX_CPU_COUNT cfg) zero_tss_entry\<rparr>;
         s = tss_loop cfg 0 s;
         s = s\<lparr>reg_tr := ucast TSS_SEGMENT\<rparr>;
         s = kernel_success ''TSS Initialized at 0x%P\<newline>'' [ArgWord (cpu_tss_addr cfg)] s
     in kernel_trace_event EVENT_KERNEL_CPU_SET_TSS_END [ArgWord (cpu_tss_addr cfg), ArgWord 0] s)"

definition cpu_init :: "config \<Rightarrow> cpu_state \<Rightarrow> cpu_state" where
  "cpu_init cfg s0 =
    (let s = kernel_trace_event EVENT_KERNEL_CPU_SETUP_START [] s0;
         s = cpu_setup_gdt cfg s;
         s = cpu_setup_idt cfg s;
         s = cpu_setup_tss cfg s
     in kernel_trace_event EVENT_KERNEL_CPU_SETUP_END [] s)"

section \<open>Raising a software interrupt\<close>

text \<open>
  The \<^verbatim>\<open>switch\<close> of \<^verbatim>\<open>cpu_raise_interrupt\<close> has one case per label 0, 1, ..., 255 and no
  default; the case of label \<^verbatim>\<open>n\<close> executes \<^verbatim>\<open>int $n\<close> with the label as immediate operand.
\<close>

definition switch_labels :: "nat list" where
  "switch_labels = [0..<256]"

definition asm_int :: "nat \<Rightarrow> cpu_state \<Rightarrow> cpu_state" where
  "asm_int n s = s\<lparr>effects := effects s @ [ASM_INT n]\<rparr>"

definition int_switch :: "32 word \<Rightarrow> cpu_state \<Rightarrow> cpu_state" where
  "int_switch interrupt_line s =
     (case find (\<lambda>n. of_nat n = interrupt_line) switch_labels of
        Some n \<Rightarrow> asm_int n s
      | None \<Rightarrow> s)"

definition cpu_raise_interrupt :: "config \<Rightarrow> 32 word \<Rightarrow> cpu_state \<Rightarrow> OS_RETURN_E \<times> cpu_state" where
  "cpu_raise_interrupt cfg interrupt_line s0 =
    (let s = kernel_trace_event EVENT_KERNEL_CPU_RAISE_INT_START [ArgWord interrupt_line] s0;
         s = kernel_debug cfg ''Requesting interrupt raise %d'' [ArgWord interrupt_line] s
     in if interrupt_line > MAX_INTERRUPT_LINE cfg then
          (OS_ERR_UNAUTHORIZED_ACTION,
           kernel_trace_event EVENT_KERNEL_CPU_RAISE_INT_END
             [ArgWord interrupt_line, ArgRet OS_ERR_UNAUTHORIZED_ACTION] s)
        else
          (let s = int_switch interrupt_line s
           in (OS_NO_ERR,
               kernel_trace_event EVENT_KERNEL_CPU_RAISE_INT_END
                 [ArgWord interrupt_line, ArgRet OS_NO_ERR] s)))"

section \<open>Observations used in the statements\<close>

text \<open>The vectors of the traps among a sequence of effects, in order.\<close>

fun traps :: "effect list \<Rightarrow> nat list" where
  "traps [] = []"
| "traps (ASM_INT n # rest) = n # traps rest"
| "traps (e # rest) = traps rest"

text \<open>
  The selector of the task descriptor of core \<^verbatim>\<open>i\<close>: \<^verbatim>\<open>_cpu_setup_gdt\<close> writes the descriptor
  of \<^verbatim>\<open>cpu_tss[i]\<close> at index \<^verbatim>\<open>(TSS_SEGMENT + i * 0x08) / 8\<close> of the segment table.
\<close>

definition tss_descriptor_selector :: "nat \<Rightarrow> 32 word" where
  "tss_descriptor_selector i = TSS_SEGMENT + of_nat i * 0x08"

text \<open>
  The two exported functions of the module, and a sequence of calls to them.
\<close>

datatype cpu_call = Call_cpu_init | Call_cpu_raise_interrupt "32 word"

fun exec_call :: "config \<Rightarrow> cpu_call \<Rightarrow> cpu_state \<Rightarrow> cpu_state" where
  "exec_call cfg Call_cpu_init s = cpu_init cfg s"
| "exec_call cfg (Call_cpu_raise_interrupt v) s = snd (cpu_raise_interrupt cfg v s)"

fun exec_calls :: "config \<Rightarrow> cpu_call list \<Rightarrow> cpu_state \<Rightarrow> cpu_state" where
  "exec_calls cfg [] s = s"
| "exec_calls cfg (c # rest) s = exec_calls cfg rest (exec_call cfg c s)"

subsection \<open>A concrete configuration\<close>

text \<open>
  Four cores, stacks of 4096 bytes from address 0x1000, interrupt lines up to 255. The
  table and trampoline addresses are sample values inside the kernel's memory map.
\<close>

definition cfg4 :: config where
  "cfg4 = \<lparr>MAX_CPU_COUNT = 4, KERNEL_STACK_SIZE = 4096, KERNEL_STACKS_BASE = 0x1000,
           MAX_INTERRUPT_LINE = 255, CPU_DEBUG_ENABLED = False,
           interrupt_handler = (\<lambda>n. 0xE0108000 + 16 * of_nat n),
           cpu_gdt_addr = 0xE0158000, cpu_idt_addr = 0xE0158100, cpu_tss_addr = 0xE0158900\<rparr>"

definition regs0 :: cpu_state where
  "regs0 = \<lparr>cpu_gdt = [], cpu_gdt_ptr = \<lparr>gdt_size = 0, gdt_base = 0\<rparr>,
            cpu_idt = [], cpu_idt_ptr = \<lparr>idt_size = 0, idt_base = 0\<rparr>,
            cpu_tss = [], cpu_int_handlers = [],
            reg_gdtr = (0, 0), reg_idtr = (0, 0), reg_tr = 0,
            reg_ds = 0, reg_es = 0, reg_fs = 0, reg_gs = 0, reg_ss = 0, reg_cs = 0,
            effects = []\<rparr>"

definition boot4 :: cpu_state where
  "boot4 = boot_state cfg4 regs0"

section \<open>Raising a software interrupt: range check, trap and frame\<close>

lemma traps_append: "traps (xs @ ys) = traps xs @ traps ys"
  by (induction xs rule: traps.induct) simp_all

lemma unat_of_nat32: "n < 4294967296 \<Longrightarrow> unat (of_nat n :: 32 word) = n"
  by (simp add: unat_of_nat)

lemma length_switch_labels: "length switch_labels = 256"
  unfolding switch_labels_def by (simp only: length_upt)

lemma nth_switch_labels: "i < 256 \<Longrightarrow> switch_labels ! i = i"
  unfolding switch_labels_def by (simp only: nth_upt)

lemma set_switch_labels: "set switch_labels = {0..<256}"
  unfolding switch_labels_def by (simp only: set_upt)

lemma find_switch_labels:
  "find (\<lambda>n. of_nat n = (v :: 32 word)) switch_labels = (if v \<le> 255 then Some (unat v) else None)"
proof (cases "v \<le> 255")
  case True
  then have lt: "unat v < 256" by (simp add: word_le_nat_alt)
  have "\<exists>i<length switch_labels. (of_nat (switch_labels ! i) :: 32 word) = v \<and> unat v = switch_labels ! i
         \<and> (\<forall>j<i. \<not> (of_nat (switch_labels ! j) :: 32 word) = v)"
  proof (intro exI[of _ "unat v"] conjI allI impI)
    show "unat v < length switch_labels" using lt by (simp add: length_switch_labels)
    show "(of_nat (switch_labels ! unat v) :: 32 word) = v" using lt by (simp add: nth_switch_labels)
    show "unat v = switch_labels ! unat v" using lt by (simp add: nth_switch_labels)
  next
    fix j assume j: "j < unat v"
    then have "unat (of_nat j :: 32 word) = j" using lt by (simp add: unat_of_nat32)
    then have "(of_nat j :: 32 word) \<noteq> v" using j by auto
    then show "\<not> (of_nat (switch_labels ! j) :: 32 word) = v" using j lt by (simp add: nth_switch_labels)
  qed
  then show ?thesis using True by (simp only: find_Some_iff if_True)
next
  case False
  then have ge: "256 \<le> unat v" by (simp add: word_le_nat_alt)
  have "\<And>n. n < 256 \<Longrightarrow> (of_nat n :: 32 word) \<noteq> v"
  proof
    fix n :: nat assume n: "n < 256" and e: "(of_nat n :: 32 word) = v"
    have "unat (of_nat n :: 32 word) = n" using n by (simp add: unat_of_nat32)
    then show False using e ge n by simp
  qed
  then have "\<not> (\<exists>x. x \<in> set switch_labels \<and> (of_nat x :: 32 word) = v)"
    by (auto simp only: set_switch_labels atLeastLessThan_iff)
  then show ?thesis using False by (simp add: find_None_iff)
qed

lemma int_switch_eq:
  "int_switch v s = (if v \<le> 255 then asm_int (unat v) s else s)"
  by (simp add: int_switch_def find_switch_labels)

lemma kernel_debug_effects:
  "kernel_debug cfg msg args s =
     s\<lparr>effects := effects s @ (if CPU_DEBUG_ENABLED cfg then [KERNEL_DEBUG msg args] else [])\<rparr>"
  by (simp add: kernel_debug_def)

lemma cpu_raise_interrupt_eq:
  "cpu_raise_interrupt cfg v s =
     (if v > MAX_INTERRUPT_LINE cfg then OS_ERR_UNAUTHORIZED_ACTION else OS_NO_ERR,
      s\<lparr>effects := effects s
          @ [KERNEL_TRACE_EVENT EVENT_KERNEL_CPU_RAISE_INT_START [ArgWord v]]
          @ (if CPU_DEBUG_ENABLED cfg
             then [KERNEL_DEBUG ''Requesting interrupt raise %d'' [ArgWord v]] else [])
          @ (if v \<le> MAX_INTERRUPT_LINE cfg \<and> v \<le> 255 then [ASM_INT (unat v)] else [])
          @ [KERNEL_TRACE_EVENT EVENT_KERNEL_CPU_RAISE_INT_END
               [ArgWord v, ArgRet (if v > MAX_INTERRUPT_LINE cfg
                                   then OS_ERR_UNAUTHORIZED_ACTION else OS_NO_ERR)]]\<rparr>)"
proof (cases "v > MAX_INTERRUPT_LINE cfg")
  case True
  then have "\<not> v \<le> MAX_INTERRUPT_LINE cfg" by simp
  with True show ?thesis
    unfolding cpu_raise_interrupt_def Let_def kernel_debug_effects kernel_trace_event_def
    by simp
next
  case False
  then have le: "v \<le> MAX_INTERRUPT_LINE cfg" by simp
  show ?thesis
  proof (cases "v \<le> 255")
    case True
    with False le show ?thesis
      unfolding cpu_raise_interrupt_def Let_def kernel_debug_effects kernel_trace_event_def
        int_switch_eq asm_int_def
      by simp
  next
    case False
    with \<open>\<not> v > MAX_INTERRUPT_LINE cfg\<close> le show ?thesis
      unfolding cpu_raise_interrupt_def Let_def kernel_debug_effects kernel_trace_event_def
        int_switch_eq asm_int_def
      by simp
  qed
qed

lemma traps_debug [simp]:
  "traps (if b then [KERNEL_DEBUG msg args] else []) = []"
  by simp

text \<open>
  Claim C1. With a maximum supported interrupt line of at most 255: a vector above the
  maximum is refused with the error code, no trap is executed and nothing but the
  diagnostic records changes; a vector up to the maximum, the maximum included, returns
  success and executes exactly one trap, whose vector is the requested one.
\<close>

theorem cpu_raise_interrupt_range:
  assumes "MAX_INTERRUPT_LINE cfg \<le> 255"
  shows "(v > MAX_INTERRUPT_LINE cfg \<longrightarrow>
            fst (cpu_raise_interrupt cfg v s) = OS_ERR_UNAUTHORIZED_ACTION \<and>
            traps (effects (snd (cpu_raise_interrupt cfg v s))) = traps (effects s) \<and>
            (snd (cpu_raise_interrupt cfg v s))\<lparr>effects := effects s\<rparr> = s) \<and>
         (v \<le> MAX_INTERRUPT_LINE cfg \<longrightarrow>
            fst (cpu_raise_interrupt cfg v s) = OS_NO_ERR \<and>
            traps (effects (snd (cpu_raise_interrupt cfg v s))) = traps (effects s) @ [unat v])"
proof (intro conjI impI)
  assume gt: "v > MAX_INTERRUPT_LINE cfg"
  then have n: "\<not> v \<le> MAX_INTERRUPT_LINE cfg" by simp
  show "fst (cpu_raise_interrupt cfg v s) = OS_ERR_UNAUTHORIZED_ACTION"
    using gt by (simp add: cpu_raise_interrupt_eq)
  show "traps (effects (snd (cpu_raise_interrupt cfg v s))) = traps (effects s)"
    using n by (simp add: cpu_raise_interrupt_eq traps_append)
  show "(snd (cpu_raise_interrupt cfg v s))\<lparr>effects := effects s\<rparr> = s"
    by (simp add: cpu_raise_interrupt_eq)
next
  assume le: "v \<le> MAX_INTERRUPT_LINE cfg"
  then have n: "\<not> v > MAX_INTERRUPT_LINE cfg" by simp
  from le assms have le255: "v \<le> 255" by (rule order_trans)
  show "fst (cpu_raise_interrupt cfg v s) = OS_NO_ERR"
    using n by (simp add: cpu_raise_interrupt_eq)
  show "traps (effects (snd (cpu_raise_interrupt cfg v s))) = traps (effects s) @ [unat v]"
    using le le255 by (simp add: cpu_raise_interrupt_eq traps_append)
qed

theorem cpu_raise_interrupt_range_witness:
  "MAX_INTERRUPT_LINE cfg4 \<le> 255 \<and>
   fst (cpu_raise_interrupt cfg4 255 boot4) = OS_NO_ERR \<and>
   traps (effects (snd (cpu_raise_interrupt cfg4 255 boot4))) = [255] \<and>
   fst (cpu_raise_interrupt cfg4 256 boot4) = OS_ERR_UNAUTHORIZED_ACTION \<and>
   traps (effects (snd (cpu_raise_interrupt cfg4 256 boot4))) = [] \<and>
   (snd (cpu_raise_interrupt cfg4 256 boot4))\<lparr>effects := effects boot4\<rparr> = boot4"
proof -
  have h: "MAX_INTERRUPT_LINE cfg4 \<le> 255" by (simp add: cfg4_def)
  have e: "effects boot4 = []" by (simp add: boot4_def boot_state_def)
  have a: "(255 :: 32 word) \<le> MAX_INTERRUPT_LINE cfg4" by (simp add: cfg4_def)
  have b: "(256 :: 32 word) > MAX_INTERRUPT_LINE cfg4" by (simp add: cfg4_def)
  show ?thesis
    using h a b e cpu_raise_interrupt_range [OF h, of 255 boot4]
      cpu_raise_interrupt_range [OF h, of 256 boot4]
    by simp
qed

text \<open>
  Claim C10. For every vector, \<^verbatim>\<open>cpu_raise_interrupt\<close> leaves the segment table, the gate
  table, the task-state records, both pseudo-descriptors and the handler table as they
  were, as well as every register of the model; all it adds is the start and end trace
  records, the debug record when debugging is on, and, for an accepted vector that has a
  case of the switch, the one trap.
\<close>

theorem cpu_raise_interrupt_frame:
  "cpu_gdt (snd (cpu_raise_interrupt cfg v s)) = cpu_gdt s \<and>
   cpu_idt (snd (cpu_raise_interrupt cfg v s)) = cpu_idt s \<and>
   cpu_tss (snd (cpu_raise_interrupt cfg v s)) = cpu_tss s \<and>
   cpu_gdt_ptr (snd (cpu_raise_interrupt cfg v s)) = cpu_gdt_ptr s \<and>
   cpu_idt_ptr (snd (cpu_raise_interrupt cfg v s)) = cpu_idt_ptr s \<and>
   cpu_int_handlers (snd (cpu_raise_interrupt cfg v s)) = cpu_int_handlers s \<and>
   (snd (cpu_raise_interrupt cfg v s))\<lparr>effects := effects s\<rparr> = s \<and>
   effects (snd (cpu_raise_interrupt cfg v s)) =
     effects s
     @ [KERNEL_TRACE_EVENT EVENT_KERNEL_CPU_RAISE_INT_START [ArgWord v]]
     @ (if CPU_DEBUG_ENABLED cfg
        then [KERNEL_DEBUG ''Requesting interrupt raise %d'' [ArgWord v]] else [])
     @ (if v \<le> MAX_INTERRUPT_LINE cfg \<and> v \<le> 255 then [ASM_INT (unat v)] else [])
     @ [KERNEL_TRACE_EVENT EVENT_KERNEL_CPU_RAISE_INT_END
          [ArgWord v, ArgRet (fst (cpu_raise_interrupt cfg v s))]]"
  unfolding cpu_raise_interrupt_eq by simp

theorem cpu_raise_interrupt_frame_witness:
  "cpu_gdt (snd (cpu_raise_interrupt cfg4 3 boot4)) = cpu_gdt boot4 \<and>
   cpu_int_handlers (snd (cpu_raise_interrupt cfg4 3 boot4)) = cpu_int_handlers boot4 \<and>
   effects (snd (cpu_raise_interrupt cfg4 3 boot4)) =
     [KERNEL_TRACE_EVENT EVENT_KERNEL_CPU_RAISE_INT_START [ArgWord 3], ASM_INT 3,
      KERNEL_TRACE_EVENT EVENT_KERNEL_CPU_RAISE_INT_END [ArgWord 3, ArgRet OS_NO_ERR]]"
proof -
  have e: "effects boot4 = []" by (simp add: boot4_def boot_state_def)
  have c: "\<not> CPU_DEBUG_ENABLED cfg4" "(3 :: 32 word) \<le> MAX_INTERRUPT_LINE cfg4"
    by (simp_all add: cfg4_def)
  have r: "fst (cpu_raise_interrupt cfg4 3 boot4) = OS_NO_ERR"
    using c by (simp add: cpu_raise_interrupt_eq)
  show ?thesis
    using cpu_raise_interrupt_frame [of cfg4 3 boot4] e c r by simp
qed


section \<open>Bit layout of the two encoders\<close>

lemma mask_FFFF: "(0xFFFF :: 32 word) = mask 16" by (simp add: mask_eq_exp_minus_1)
lemma mask_FF: "(0xFF :: 32 word) = mask 8" by (simp add: mask_eq_exp_minus_1)
lemma mask_F: "(0xF :: 8 word) = mask 4" by (simp add: mask_eq_exp_minus_1)
lemma mask_F0F000: "(0x00F0F000 :: 32 word) = push_bit 12 (mask 4) OR push_bit 20 (mask 4)"
  by (simp add: mask_eq_exp_minus_1 push_bit_eq_mult)
lemma mask_F0000: "(0xF0000 :: 32 word) = push_bit 16 (mask 4)"
  by (simp add: mask_eq_exp_minus_1 push_bit_eq_mult)
lemma mask_FF000000: "(0xFF000000 :: 32 word) = push_bit 24 (mask 8)"
  by (simp add: mask_eq_exp_minus_1 push_bit_eq_mult)
lemma mask_FFFF0000: "(0xFFFF0000 :: 32 word) = push_bit 16 (mask 16)"
  by (simp add: mask_eq_exp_minus_1 push_bit_eq_mult)
lemma mask_F0: "(0xF0 :: 32 word) = push_bit 4 (mask 4)"
  by (simp add: mask_eq_exp_minus_1 push_bit_eq_mult)

lemmas word_bit_rules =
  bit_or_iff bit_and_iff bit_push_bit_iff bit_drop_bit_eq bit_take_bit_iff bit_mask_iff bit_ucast_iff

lemma bit32_out: "32 \<le> n \<Longrightarrow> bit (w :: 32 word) n = False"
  by (auto dest: bit_imp_le_length)

lemma bit64_out: "64 \<le> n \<Longrightarrow> bit (w :: 64 word) n = False"
  by (auto dest: bit_imp_le_length)

lemma bit8_out: "8 \<le> n \<Longrightarrow> bit (w :: 8 word) n = False"
  by (auto dest: bit_imp_le_length)

lemma bit_and_FFFF: "bit ((x :: 32 word) AND 0xFFFF) n \<longleftrightarrow> n < 16 \<and> bit x n"
  unfolding mask_FFFF by (auto simp add: word_bit_rules)

lemma bit_push16_and_FFFF:
  "bit (push_bit 16 ((b :: 32 word) AND 0xFFFF)) n \<longleftrightarrow> 16 \<le> n \<and> n < 32 \<and> bit b (n - 16)"
  unfolding mask_FFFF by (auto simp add: word_bit_rules)

lemma bit_and_FF_drop16:
  "bit (drop_bit 16 (b :: 32 word) AND 0xFF) n \<longleftrightarrow> n < 8 \<and> bit b (n + 16)"
  unfolding mask_FF by (auto simp add: word_bit_rules add.commute)

lemma bit_type_nibble:
  "bit (push_bit 8 (ucast ((t :: 8 word) AND 0xF)) :: 32 word) n \<longleftrightarrow> 8 \<le> n \<and> n < 12 \<and> bit t (n - 8)"
  unfolding mask_F by (auto simp add: word_bit_rules)

lemma bit_and_F0F000:
  "bit ((f :: 32 word) AND 0x00F0F000) n \<longleftrightarrow> (12 \<le> n \<and> n < 16 \<or> 20 \<le> n \<and> n < 24) \<and> bit f n"
  unfolding mask_F0F000 by (auto simp add: word_bit_rules)

lemma bit_and_F0000: "bit ((l :: 32 word) AND 0xF0000) n \<longleftrightarrow> 16 \<le> n \<and> n < 20 \<and> bit l n"
  unfolding mask_F0000 by (auto simp add: word_bit_rules)

lemma bit_and_FF000000: "bit ((b :: 32 word) AND 0xFF000000) n \<longleftrightarrow> 24 \<le> n \<and> bit b n"
  unfolding mask_FF000000 by (auto simp add: word_bit_rules dest: bit_imp_le_length)

lemma bit_and_FFFF0000: "bit ((h :: 32 word) AND 0xFFFF0000) n \<longleftrightarrow> 16 \<le> n \<and> bit h n"
  unfolding mask_FFFF0000 by (auto simp add: word_bit_rules dest: bit_imp_le_length)

lemma bit_push8_and_F0:
  "bit (push_bit 8 ((f :: 32 word) AND 0xF0)) n \<longleftrightarrow> 12 \<le> n \<and> n < 16 \<and> bit f (n - 8)"
  unfolding mask_F0 by (auto simp add: word_bit_rules)

lemma push16_KERNEL_CS_32: "push_bit 16 KERNEL_CS_32 = (2 ^ 19 :: 32 word)"
  by (simp add: KERNEL_CS_32_def)

lemma bit_push16_KERNEL_CS_32: "bit (push_bit 16 KERNEL_CS_32) n \<longleftrightarrow> n = 19"
  unfolding push16_KERNEL_CS_32
  by (simp only: bit_exp_iff possible_bit_word) auto

lemma bit_halves:
  "bit (ucast (lo :: 32 word) OR push_bit 32 (ucast (hi :: 32 word)) :: 64 word) n \<longleftrightarrow>
     (if n < 32 then bit lo n else bit hi (n - 32))"
  by (auto simp add: word_bit_rules dest: bit_imp_le_length)

lemma low_half:
  "(ucast (ucast (lo :: 32 word) OR push_bit 32 (ucast (hi :: 32 word)) :: 64 word) :: 32 word) = lo"
  by (rule bit_word_eqI) (auto simp add: word_bit_rules)

lemma high_half:
  "(ucast (drop_bit 32 (ucast (lo :: 32 word) OR push_bit 32 (ucast (hi :: 32 word)) :: 64 word)) :: 32 word) = hi"
  by (rule bit_word_eqI) (auto simp add: word_bit_rules dest: bit_imp_le_length)

lemma bit_gdt_lo_part:
  "bit (push_bit 16 ((b :: 32 word) AND 0xFFFF) OR (l AND 0xFFFF)) n \<longleftrightarrow>
     (if n < 16 then bit l n else n < 32 \<and> bit b (n - 16))"
  by (auto simp only: bit_or_iff bit_and_FFFF bit_push16_and_FFFF split: if_splits)

lemma bit_gdt_hi_part:
  "bit (((((drop_bit 16 (b :: 32 word) AND 0xFF) OR push_bit 8 (ucast ((t :: 8 word) AND 0xF)))
          OR (f AND 0x00F0F000)) OR (l AND 0xF0000)) OR (b AND 0xFF000000)) n \<longleftrightarrow>
     (if n < 8 then bit b (n + 16)
      else if n < 12 then bit t (n - 8)
      else if n < 16 then bit f n
      else if n < 20 then bit l n
      else if n < 24 then bit f n
      else bit b n)"
proof -
  have raw: "bit (((((drop_bit 16 b AND 0xFF) OR push_bit 8 (ucast (t AND 0xF)))
          OR (f AND 0x00F0F000)) OR (l AND 0xF0000)) OR (b AND 0xFF000000)) n \<longleftrightarrow>
     ((((n < 8 \<and> bit b (n + 16) \<or> 8 \<le> n \<and> n < 12 \<and> bit t (n - 8)) \<or>
       (12 \<le> n \<and> n < 16 \<or> 20 \<le> n \<and> n < 24) \<and> bit f n) \<or>
       16 \<le> n \<and> n < 20 \<and> bit l n) \<or> 24 \<le> n \<and> bit b n)"
    by (simp only: bit_or_iff bit_and_FF_drop16 bit_type_nibble bit_and_F0F000 bit_and_F0000
        bit_and_FF000000)
  consider "n < 8" | "8 \<le> n" "n < 12" | "12 \<le> n" "n < 16" | "16 \<le> n" "n < 20"
    | "20 \<le> n" "n < 24" | "24 \<le> n"
    by linarith
  then show ?thesis
    by cases (simp_all add: raw)
qed

lemma format_gdt_entry_halves:
  "ucast (format_gdt_entry b l t f) =
     push_bit 16 (b AND 0xFFFF) OR (l AND 0xFFFF)"
  "ucast (drop_bit 32 (format_gdt_entry b l t f)) =
     ((((drop_bit 16 b AND 0xFF) OR push_bit 8 (ucast (t AND 0xF)))
          OR (f AND 0x00F0F000)) OR (l AND 0xF0000)) OR (b AND 0xFF000000)"
  unfolding format_gdt_entry_def Let_def by (simp_all only: low_half high_half)

lemma bit_format_gdt_entry:
  "bit (format_gdt_entry b l t f) n \<longleftrightarrow>
     (if n < 16 then bit l n
      else if n < 32 then bit b (n - 16)
      else if n < 40 then bit b (n - 16)
      else if n < 44 then bit t (n - 40)
      else if n < 48 then bit f (n - 32)
      else if n < 52 then bit l (n - 32)
      else if n < 56 then bit f (n - 32)
      else bit b (n - 32))"
proof -
  have raw: "\<And>k. bit (format_gdt_entry b l t f) k \<longleftrightarrow>
     (if k < 32 then (if k < 16 then bit l k else k < 32 \<and> bit b (k - 16))
      else (if k - 32 < 8 then bit b (k - 32 + 16)
            else if k - 32 < 12 then bit t (k - 32 - 8)
            else if k - 32 < 16 then bit f (k - 32)
            else if k - 32 < 20 then bit l (k - 32)
            else if k - 32 < 24 then bit f (k - 32)
            else bit b (k - 32)))"
    unfolding format_gdt_entry_def Let_def
    by (simp only: bit_halves bit_gdt_lo_part bit_gdt_hi_part)
  consider "n < 16" | "16 \<le> n" "n < 32" | "32 \<le> n" "n < 40" | "40 \<le> n" "n < 44"
    | "44 \<le> n" "n < 48" | "48 \<le> n" "n < 52" | "52 \<le> n" "n < 56" | "56 \<le> n"
    by linarith
  then show ?thesis
  proof cases
    case 1 then show ?thesis by (simp add: raw)
  next
    case 2 then show ?thesis by (simp add: raw)
  next
    case 3
    then obtain m where m: "n = 32 + m" "m < 8" using le_Suc_ex[of 32 n] by auto
    then show ?thesis by (simp add: raw add.commute)
  next
    case 4
    then obtain m where m: "n = 32 + m" "8 \<le> m" "m < 12" using le_Suc_ex[of 32 n] by auto
    then show ?thesis by (simp add: raw)
  next
    case 5
    then obtain m where m: "n = 32 + m" "12 \<le> m" "m < 16" using le_Suc_ex[of 32 n] by auto
    then show ?thesis by (simp add: raw)
  next
    case 6
    then obtain m where m: "n = 32 + m" "16 \<le> m" "m < 20" using le_Suc_ex[of 32 n] by auto
    then show ?thesis by (simp add: raw)
  next
    case 7
    then obtain m where m: "n = 32 + m" "20 \<le> m" "m < 24" using le_Suc_ex[of 32 n] by auto
    then show ?thesis by (simp add: raw)
  next
    case 8
    then obtain m where m: "n = 32 + m" "24 \<le> m" using le_Suc_ex[of 32 n] by auto
    then show ?thesis by (simp add: raw)
  qed
qed

text \<open>
  Claim C5. For all inputs, the low 32 bits of the record written by \<^verbatim>\<open>_format_gdt_entry\<close>
  hold limit[15:0] in bits 15..0 and base[15:0] in bits 31..16, and its high 32 bits hold
  base[23:16] in bits 7..0, the low nibble of the type in bits 11..8, the flag bits 15..12
  and 23..20 at their own positions, limit[19:16] in bits 19..16 and base[31:24] in bits
  31..24. Every bit of the record is fixed by this.
\<close>

theorem format_gdt_entry_layout:
  "(bit (ucast (format_gdt_entry base limit type flags) :: 32 word) n \<longleftrightarrow>
      (if n < 16 then bit limit n else n < 32 \<and> bit base (n - 16))) \<and>
   (bit (ucast (drop_bit 32 (format_gdt_entry base limit type flags)) :: 32 word) n \<longleftrightarrow>
      (if n < 8 then bit base (n + 16)
       else if n < 12 then bit type (n - 8)
       else if n < 16 then bit flags n
       else if n < 20 then bit limit n
       else if n < 24 then bit flags n
       else bit base n)) \<and>
   format_gdt_entry base limit type flags =
     ucast (ucast (format_gdt_entry base limit type flags) :: 32 word)
     OR push_bit 32 (ucast (ucast (drop_bit 32 (format_gdt_entry base limit type flags)) :: 32 word))"
proof (intro conjI)
  show "bit (ucast (format_gdt_entry base limit type flags) :: 32 word) n \<longleftrightarrow>
      (if n < 16 then bit limit n else n < 32 \<and> bit base (n - 16))"
    by (simp only: format_gdt_entry_halves bit_gdt_lo_part)
  show "bit (ucast (drop_bit 32 (format_gdt_entry base limit type flags)) :: 32 word) n \<longleftrightarrow>
      (if n < 8 then bit base (n + 16)
       else if n < 12 then bit type (n - 8)
       else if n < 16 then bit flags n
       else if n < 20 then bit limit n
       else if n < 24 then bit flags n
       else bit base n)"
    by (simp only: format_gdt_entry_halves bit_gdt_hi_part)
  show "format_gdt_entry base limit type flags =
     ucast (ucast (format_gdt_entry base limit type flags) :: 32 word)
     OR push_bit 32 (ucast (ucast (drop_bit 32 (format_gdt_entry base limit type flags)) :: 32 word))"
    by (simp only: format_gdt_entry_halves) (simp add: format_gdt_entry_def Let_def)
qed


lemma bit_idt_lo_part:
  "bit (push_bit 16 KERNEL_CS_32 OR ((h :: 32 word) AND 0xFFFF)) n \<longleftrightarrow>
     (if n < 16 then bit h n else n = 19)"
  by (auto simp only: bit_or_iff bit_and_FFFF bit_push16_KERNEL_CS_32 split: if_splits)

lemma bit_idt_hi_part:
  "bit (((h :: 32 word) AND 0xFFFF0000) OR
        (push_bit 8 ((f :: 32 word) AND 0xF0) OR push_bit 8 (ucast ((t :: 8 word) AND 0xF)))) n \<longleftrightarrow>
     (if n < 8 then False
      else if n < 12 then bit t (n - 8)
      else if n < 16 then bit f (n - 8)
      else bit h n)"
proof -
  have raw: "bit ((h AND 0xFFFF0000) OR
        (push_bit 8 (f AND 0xF0) OR push_bit 8 (ucast (t AND 0xF)))) n \<longleftrightarrow>
     (16 \<le> n \<and> bit h n \<or> (12 \<le> n \<and> n < 16 \<and> bit f (n - 8) \<or> 8 \<le> n \<and> n < 12 \<and> bit t (n - 8)))"
    by (simp only: bit_or_iff bit_and_FFFF0000 bit_push8_and_F0 bit_type_nibble)
  consider "n < 8" | "8 \<le> n" "n < 12" | "12 \<le> n" "n < 16" | "16 \<le> n"
    by linarith
  then show ?thesis
    unfolding raw by cases simp_all
qed

lemma format_idt_entry_halves:
  "ucast (format_idt_entry h t f) = push_bit 16 KERNEL_CS_32 OR (h AND 0xFFFF)"
  "ucast (drop_bit 32 (format_idt_entry h t f)) =
     (h AND 0xFFFF0000) OR (push_bit 8 (f AND 0xF0) OR push_bit 8 (ucast (t AND 0xF)))"
  unfolding format_idt_entry_def Let_def by (simp_all only: low_half high_half)

lemma bit_format_idt_entry:
  "bit (format_idt_entry h t f) n \<longleftrightarrow>
     (if n < 16 then bit h n
      else if n < 32 then n = 19
      else if n < 40 then False
      else if n < 44 then bit t (n - 40)
      else if n < 48 then bit f (n - 40)
      else bit h (n - 32))"
proof -
  have raw: "\<And>k. bit (format_idt_entry h t f) k \<longleftrightarrow>
     (if k < 32 then (if k < 16 then bit h k else k = 19)
      else (if k - 32 < 8 then False
            else if k - 32 < 12 then bit t (k - 32 - 8)
            else if k - 32 < 16 then bit f (k - 32 - 8)
            else bit h (k - 32)))"
    unfolding format_idt_entry_def Let_def
    by (simp only: bit_halves bit_idt_lo_part bit_idt_hi_part)
  consider "n < 16" | "16 \<le> n" "n < 32" | "32 \<le> n" "n < 40" | "40 \<le> n" "n < 44"
    | "44 \<le> n" "n < 48" | "48 \<le> n"
    by linarith
  then show ?thesis
  proof cases
    case 1 then show ?thesis by (simp add: raw)
  next
    case 2 then show ?thesis by (simp add: raw)
  next
    case 3
    then obtain m where m: "n = 32 + m" "m < 8" using le_Suc_ex[of 32 n] by auto
    then show ?thesis by (simp add: raw)
  next
    case 4
    then obtain m where m: "n = 32 + m" "8 \<le> m" "m < 12" using le_Suc_ex[of 32 n] by auto
    then show ?thesis by (simp add: raw)
  next
    case 5
    then obtain m where m: "n = 32 + m" "12 \<le> m" "m < 16" using le_Suc_ex[of 32 n] by auto
    then show ?thesis by (simp add: raw)
  next
    case 6
    then obtain m where m: "n = 32 + m" "16 \<le> m" using le_Suc_ex[of 32 n] by auto
    then show ?thesis by (simp add: raw)
  qed
qed

subsection \<open>Bits of the fields read back\<close>

lemma bit_field32:
  "bit (push_bit k (ucast (take_bit w (drop_bit d (e :: 64 word)))) :: 32 word) n \<longleftrightarrow>
     k \<le> n \<and> n < 32 \<and> n - k < w \<and> bit e (d + (n - k))"
  by (auto simp add: word_bit_rules)

lemma bit_field32_0:
  "bit (ucast (take_bit w (drop_bit d (e :: 64 word))) :: 32 word) n \<longleftrightarrow>
     n < 32 \<and> n < w \<and> bit e (d + n)"
  by (auto simp add: word_bit_rules)

lemma bit_field32_00:
  "bit (ucast (take_bit w (e :: 64 word)) :: 32 word) n \<longleftrightarrow> n < 32 \<and> n < w \<and> bit e n"
  by (auto simp add: word_bit_rules)

lemma bit_field8_0:
  "bit (ucast (take_bit w (drop_bit d (e :: 64 word))) :: 8 word) n \<longleftrightarrow>
     n < 8 \<and> n < w \<and> bit e (d + n)"
  by (auto simp add: word_bit_rules)

lemma gdt_entry_base_format: "gdt_entry_base (format_gdt_entry b l t f) = b"
proof (rule bit_word_eqI)
  fix n assume "n < LENGTH(32)"
  then have n: "n < 32" by simp
  have raw: "\<And>k. bit (gdt_entry_base (format_gdt_entry b l t f)) k \<longleftrightarrow>
      k < 32 \<and> k < 16 \<and> bit (format_gdt_entry b l t f) (16 + k) \<or>
      16 \<le> k \<and> k < 32 \<and> k - 16 < 8 \<and> bit (format_gdt_entry b l t f) (32 + (k - 16)) \<or>
      24 \<le> k \<and> k < 32 \<and> k - 24 < 8 \<and> bit (format_gdt_entry b l t f) (56 + (k - 24))"
    unfolding gdt_entry_base_def by (simp only: bit_or_iff bit_field32 bit_field32_0)
  consider "n < 16" | "16 \<le> n" "n < 24" | "24 \<le> n" by linarith
  then show "bit (gdt_entry_base (format_gdt_entry b l t f)) n \<longleftrightarrow> bit b n"
  proof cases
    case 1 then show ?thesis using n by (simp add: raw bit_format_gdt_entry)
  next
    case 2
    then obtain m where "n = 16 + m" "m < 8" using le_Suc_ex[of 16 n] by auto
    then show ?thesis by (simp add: raw bit_format_gdt_entry)
  next
    case 3
    then obtain m where "n = 24 + m" "m < 8" using n le_Suc_ex[of 24 n] by auto
    then show ?thesis by (simp add: raw bit_format_gdt_entry)
  qed
qed

lemma mask_FFFFF: "(0xFFFFF :: 32 word) = mask 20" by (simp add: mask_eq_exp_minus_1)

lemma gdt_entry_limit_format: "gdt_entry_limit (format_gdt_entry b l t f) = l AND 0xFFFFF"
proof (rule bit_word_eqI)
  fix n assume "n < LENGTH(32)"
  then have n: "n < 32" by simp
  have raw: "\<And>k. bit (gdt_entry_limit (format_gdt_entry b l t f)) k \<longleftrightarrow>
      k < 32 \<and> k < 16 \<and> bit (format_gdt_entry b l t f) k \<or>
      16 \<le> k \<and> k < 32 \<and> k - 16 < 4 \<and> bit (format_gdt_entry b l t f) (48 + (k - 16))"
    unfolding gdt_entry_limit_def by (simp only: bit_or_iff bit_field32 bit_field32_00)
  have rhs: "\<And>k. bit (l AND 0xFFFFF) k \<longleftrightarrow> k < 20 \<and> bit l k"
    unfolding mask_FFFFF by (auto simp add: word_bit_rules)
  consider "n < 16" | "16 \<le> n" "n < 20" | "20 \<le> n" by linarith
  then show "bit (gdt_entry_limit (format_gdt_entry b l t f)) n \<longleftrightarrow> bit (l AND 0xFFFFF) n"
  proof cases
    case 1 then show ?thesis using n by (simp add: raw rhs bit_format_gdt_entry)
  next
    case 2
    then obtain m where "n = 16 + m" "m < 4" using le_Suc_ex[of 16 n] by auto
    then show ?thesis by (simp add: raw rhs bit_format_gdt_entry)
  next
    case 3
    then obtain m where "n = 20 + m" using le_Suc_ex[of 20 n] by auto
    then show ?thesis by (simp add: raw rhs)
  qed
qed

lemma gdt_entry_type_format: "gdt_entry_type (format_gdt_entry b l t f) = t AND 0xF"
proof (rule bit_word_eqI)
  fix n assume "n < LENGTH(8)"
  have raw: "bit (gdt_entry_type (format_gdt_entry b l t f)) n \<longleftrightarrow>
      n < 8 \<and> n < 4 \<and> bit (format_gdt_entry b l t f) (40 + n)"
    unfolding gdt_entry_type_def by (simp only: bit_field8_0)
  have rhs: "bit (t AND 0xF) n \<longleftrightarrow> n < 4 \<and> bit t n"
    unfolding mask_F by (auto simp add: word_bit_rules)
  show "bit (gdt_entry_type (format_gdt_entry b l t f)) n \<longleftrightarrow> bit (t AND 0xF) n"
    unfolding raw rhs by (cases "n < 4") (simp_all add: bit_format_gdt_entry)
qed

lemma gdt_entry_flags_format: "gdt_entry_flags (format_gdt_entry b l t f) = f AND 0x00F0F000"
proof (rule bit_word_eqI)
  fix n assume "n < LENGTH(32)"
  then have n: "n < 32" by simp
  have raw: "\<And>k. bit (gdt_entry_flags (format_gdt_entry b l t f)) k \<longleftrightarrow>
      12 \<le> k \<and> k < 32 \<and> k - 12 < 4 \<and> bit (format_gdt_entry b l t f) (44 + (k - 12)) \<or>
      20 \<le> k \<and> k < 32 \<and> k - 20 < 4 \<and> bit (format_gdt_entry b l t f) (52 + (k - 20))"
    unfolding gdt_entry_flags_def by (simp only: bit_or_iff bit_field32)
  consider "n < 12" | "12 \<le> n" "n < 16" | "16 \<le> n" "n < 20" | "20 \<le> n" "n < 24" | "24 \<le> n"
    by linarith
  then show "bit (gdt_entry_flags (format_gdt_entry b l t f)) n \<longleftrightarrow> bit (f AND 0x00F0F000) n"
  proof cases
    case 1 then show ?thesis by (simp add: raw bit_and_F0F000)
  next
    case 2
    then obtain m where "n = 12 + m" "m < 4" using le_Suc_ex[of 12 n] by auto
    then show ?thesis by (simp add: raw bit_and_F0F000 bit_format_gdt_entry)
  next
    case 3
    then obtain m where "n = 16 + m" "m < 4" using le_Suc_ex[of 16 n] by auto
    then show ?thesis by (simp add: raw bit_and_F0F000)
  next
    case 4
    then obtain m where "n = 20 + m" "m < 4" using le_Suc_ex[of 20 n] by auto
    then show ?thesis by (simp add: raw bit_and_F0F000 bit_format_gdt_entry)
  next
    case 5
    then obtain m where "n = 24 + m" using le_Suc_ex[of 24 n] by auto
    then show ?thesis by (simp add: raw bit_and_F0F000)
  qed
qed

lemma gdt_entry_present_format: "gdt_entry_present (format_gdt_entry b l t f) \<longleftrightarrow> bit f 15"
  by (simp add: gdt_entry_present_def bit_format_gdt_entry)

lemma idt_entry_handler_format: "idt_entry_handler (format_idt_entry h t f) = h"
proof (rule bit_word_eqI)
  fix n assume "n < LENGTH(32)"
  then have n: "n < 32" by simp
  have raw: "\<And>k. bit (idt_entry_handler (format_idt_entry h t f)) k \<longleftrightarrow>
      k < 32 \<and> k < 16 \<and> bit (format_idt_entry h t f) k \<or>
      16 \<le> k \<and> k < 32 \<and> k - 16 < 16 \<and> bit (format_idt_entry h t f) (48 + (k - 16))"
    unfolding idt_entry_handler_def by (simp only: bit_or_iff bit_field32 bit_field32_00)
  consider "n < 16" | "16 \<le> n" by linarith
  then show "bit (idt_entry_handler (format_idt_entry h t f)) n \<longleftrightarrow> bit h n"
  proof cases
    case 1 then show ?thesis using n by (simp add: raw bit_format_idt_entry)
  next
    case 2
    then obtain m where "n = 16 + m" "m < 16" using n le_Suc_ex[of 16 n] by auto
    then show ?thesis by (simp add: raw bit_format_idt_entry)
  qed
qed

lemma KERNEL_CS_32_pow: "KERNEL_CS_32 = (2 ^ 3 :: 32 word)"
  by (simp add: KERNEL_CS_32_def)

lemma bit_KERNEL_CS_32: "bit KERNEL_CS_32 n \<longleftrightarrow> n = 3"
  unfolding KERNEL_CS_32_pow
  by (simp only: bit_exp_iff possible_bit_word) auto

lemma idt_entry_selector_format: "idt_entry_selector (format_idt_entry h t f) = KERNEL_CS_32"
proof (rule bit_word_eqI)
  fix n assume "n < LENGTH(32)"
  have raw: "bit (idt_entry_selector (format_idt_entry h t f)) n \<longleftrightarrow>
      n < 32 \<and> n < 16 \<and> bit (format_idt_entry h t f) (16 + n)"
    unfolding idt_entry_selector_def by (simp only: bit_field32_0)
  show "bit (idt_entry_selector (format_idt_entry h t f)) n \<longleftrightarrow> bit KERNEL_CS_32 n"
    unfolding raw bit_KERNEL_CS_32 by (cases "n < 16") (auto simp add: bit_format_idt_entry)
qed

lemma idt_entry_type_format: "idt_entry_type (format_idt_entry h t f) = t AND 0xF"
proof (rule bit_word_eqI)
  fix n assume "n < LENGTH(8)"
  have raw: "bit (idt_entry_type (format_idt_entry h t f)) n \<longleftrightarrow>
      n < 8 \<and> n < 4 \<and> bit (format_idt_entry h t f) (40 + n)"
    unfolding idt_entry_type_def by (simp only: bit_field8_0)
  have rhs: "bit (t AND 0xF) n \<longleftrightarrow> n < 4 \<and> bit t n"
    unfolding mask_F by (auto simp add: word_bit_rules)
  show "bit (idt_entry_type (format_idt_entry h t f)) n \<longleftrightarrow> bit (t AND 0xF) n"
    unfolding raw rhs by (cases "n < 4") (simp_all add: bit_format_idt_entry)
qed

lemma idt_entry_flags_format: "idt_entry_flags (format_idt_entry h t f) = f AND 0xF0"
proof (rule bit_word_eqI)
  fix n assume "n < LENGTH(32)"
  have raw: "\<And>k. bit (idt_entry_flags (format_idt_entry h t f)) k \<longleftrightarrow>
      4 \<le> k \<and> k < 32 \<and> k - 4 < 4 \<and> bit (format_idt_entry h t f) (44 + (k - 4))"
    unfolding idt_entry_flags_def by (simp only: bit_field32)
  have rhs: "\<And>k. bit (f AND 0xF0) k \<longleftrightarrow> 4 \<le> k \<and> k < 8 \<and> bit f k"
    unfolding mask_F0 by (auto simp add: word_bit_rules)
  consider "n < 4" | "4 \<le> n" "n < 8" | "8 \<le> n" by linarith
  then show "bit (idt_entry_flags (format_idt_entry h t f)) n \<longleftrightarrow> bit (f AND 0xF0) n"
  proof cases
    case 1 then show ?thesis by (simp add: raw rhs)
  next
    case 2
    then obtain m where "n = 4 + m" "m < 4" using le_Suc_ex[of 4 n] by auto
    then show ?thesis by (simp add: raw rhs bit_format_idt_entry)
  next
    case 3
    then obtain m where "n = 8 + m" using le_Suc_ex[of 8 n] by auto
    then show ?thesis by (simp add: raw rhs)
  qed
qed

lemma idt_entry_present_format: "idt_entry_present (format_idt_entry h t f) \<longleftrightarrow> bit f 7"
  by (simp add: idt_entry_present_def bit_format_idt_entry)

lemma idt_entry_dpl_format:
  "idt_entry_dpl (format_idt_entry h t f) = ucast (take_bit 2 (drop_bit 5 f))"
proof (rule bit_word_eqI)
  fix n assume "n < LENGTH(8)"
  show "bit (idt_entry_dpl (format_idt_entry h t f)) n
        \<longleftrightarrow> bit (ucast (take_bit 2 (drop_bit 5 f)) :: 8 word) n"
    unfolding idt_entry_dpl_def bit_field8_0
    by (cases "n < 2") (auto simp add: bit_format_idt_entry word_bit_rules add.commute)
qed

lemma and_FFFFF_id:
  assumes "(l :: 32 word) \<le> 0xFFFFF"
  shows "l AND 0xFFFFF = l"
proof -
  from assms have "uint l \<le> 1048575" by (simp add: word_le_def)
  then have "l AND mask 20 = l" by (simp add: mask_eq_iff)
  then show ?thesis by (simp only: mask_FFFFF)
qed

lemma and_F_id:
  assumes "(t :: 8 word) \<le> 0xF"
  shows "t AND 0xF = t"
proof -
  from assms have "uint t \<le> 15" by (simp add: word_le_def)
  then have "t AND mask 4 = t" by (simp add: mask_eq_iff)
  then show ?thesis by (simp only: mask_F)
qed

text \<open>
  Claim C8. At the boundary inputs (base 0 or 0xFFFFFFFF, limit 0 or 0xFFFFF, handler 0 or
  0xFFFFFFFF, every flag bit of the encoder's mask set or every one cleared, any type
  nibble) reading the documented bit positions of the encoded segment and gate records
  gives back the base, limit, type and flags, and the handler, type and flags, that were
  encoded.
\<close>

theorem encode_decode_boundary:
  assumes "base = 0 \<or> base = 0xFFFFFFFF"
    and "limit = 0 \<or> limit = 0xFFFFF"
    and "flags = 0 \<or> flags = 0x00F0F000"
    and "type \<le> 0xF"
    and "handler = 0 \<or> handler = 0xFFFFFFFF"
    and "gate_flags = 0 \<or> gate_flags = 0xF0"
  shows "gdt_entry_base (format_gdt_entry base limit type flags) = base \<and>
         gdt_entry_limit (format_gdt_entry base limit type flags) = limit \<and>
         gdt_entry_type (format_gdt_entry base limit type flags) = type \<and>
         gdt_entry_flags (format_gdt_entry base limit type flags) = flags \<and>
         idt_entry_handler (format_idt_entry handler type gate_flags) = handler \<and>
         idt_entry_type (format_idt_entry handler type gate_flags) = type \<and>
         idt_entry_flags (format_idt_entry handler type gate_flags) = gate_flags"
proof -
  from assms(2) have l: "limit AND 0xFFFFF = limit" by auto
  from assms(3) have f: "flags AND 0x00F0F000 = flags" by auto
  from assms(4) have t: "type AND 0xF = type" by (rule and_F_id)
  from assms(6) have g: "gate_flags AND 0xF0 = gate_flags" by auto
  show ?thesis
    by (simp only: gdt_entry_base_format gdt_entry_limit_format gdt_entry_type_format
        gdt_entry_flags_format idt_entry_handler_format idt_entry_type_format
        idt_entry_flags_format l f t g simp_thms)
qed

theorem encode_decode_boundary_witness:
  "gdt_entry_base (format_gdt_entry 0xFFFFFFFF 0xFFFFF 0xF 0x00F0F000) = 0xFFFFFFFF \<and>
   gdt_entry_limit (format_gdt_entry 0xFFFFFFFF 0xFFFFF 0xF 0x00F0F000) = 0xFFFFF \<and>
   gdt_entry_type (format_gdt_entry 0xFFFFFFFF 0xFFFFF 0xF 0x00F0F000) = 0xF \<and>
   gdt_entry_flags (format_gdt_entry 0xFFFFFFFF 0xFFFFF 0xF 0x00F0F000) = 0x00F0F000 \<and>
   idt_entry_handler (format_idt_entry 0xFFFFFFFF 0xF 0xF0) = 0xFFFFFFFF \<and>
   idt_entry_type (format_idt_entry 0xFFFFFFFF 0xF 0xF0) = 0xF \<and>
   idt_entry_flags (format_idt_entry 0xFFFFFFFF 0xF 0xF0) = 0xF0 \<and>
   gdt_entry_base (format_gdt_entry 0 0 0 0) = 0 \<and>
   gdt_entry_limit (format_gdt_entry 0 0 0 0) = 0 \<and>
   gdt_entry_type (format_gdt_entry 0 0 0 0) = 0 \<and>
   gdt_entry_flags (format_gdt_entry 0 0 0 0) = 0 \<and>
   idt_entry_handler (format_idt_entry 0 0 0) = 0 \<and>
   idt_entry_type (format_idt_entry 0 0 0) = 0 \<and>
   idt_entry_flags (format_idt_entry 0 0 0) = 0"
  using encode_decode_boundary [of "0xFFFFFFFF" "0xFFFFF" "0x00F0F000" "0xF" "0xFFFFFFFF" "0xF0"]
    encode_decode_boundary [of 0 0 0 0 0 0]
  by simp


section \<open>The gate table after setup\<close>

lemma idt_loop_step:
  "i < IDT_ENTRY_COUNT \<Longrightarrow>
   idt_loop i s = idt_loop (i + 1)
     (s\<lparr>cpu_idt := (cpu_idt s)[i :=
         format_idt_entry (cpu_int_handlers s ! i) IDT_TYPE_INT_GATE
           (IDT_FLAG_PRESENT OR IDT_FLAG_PL0)]\<rparr>)"
  by (subst idt_loop.simps) simp

lemma idt_loop_stop: "\<not> i < IDT_ENTRY_COUNT \<Longrightarrow> idt_loop i s = s"
  by (subst idt_loop.simps) simp

lemma idt_loop_frame: "idt_loop i s = s\<lparr>cpu_idt := cpu_idt (idt_loop i s)\<rparr>"
proof (induction i s rule: idt_loop.induct)
  case (1 i s)
  show ?case
  proof (cases "i < IDT_ENTRY_COUNT")
    case True
    let ?s' = "s\<lparr>cpu_idt := (cpu_idt s)[i :=
         format_idt_entry (cpu_int_handlers s ! i) IDT_TYPE_INT_GATE
           (IDT_FLAG_PRESENT OR IDT_FLAG_PL0)]\<rparr>"
    have step: "idt_loop i s = idt_loop (i + 1) ?s'" using True by (rule idt_loop_step)
    have ih: "idt_loop (i + 1) ?s' = ?s'\<lparr>cpu_idt := cpu_idt (idt_loop (i + 1) ?s')\<rparr>"
      using "1" True by simp
    have "?s'\<lparr>cpu_idt := cpu_idt (idt_loop (i + 1) ?s')\<rparr>
          = s\<lparr>cpu_idt := cpu_idt (idt_loop (i + 1) ?s')\<rparr>" by simp
    with ih have "idt_loop (i + 1) ?s' = s\<lparr>cpu_idt := cpu_idt (idt_loop (i + 1) ?s')\<rparr>"
      by (rule trans)
    then show ?thesis by (simp only: step)
  next
    case False
    then show ?thesis by (simp add: idt_loop_stop)
  qed
qed

lemma idt_loop_handlers: "cpu_int_handlers (idt_loop i s) = cpu_int_handlers s"
  by (subst idt_loop_frame) simp

lemma idt_loop_length: "length (cpu_idt (idt_loop i s)) = length (cpu_idt s)"
proof (induction i s rule: idt_loop.induct)
  case (1 i s)
  show ?case
  proof (cases "i < IDT_ENTRY_COUNT")
    case True
    with "1" show ?thesis by (simp add: idt_loop_step)
  next
    case False
    then show ?thesis by (simp add: idt_loop_stop)
  qed
qed

lemma idt_loop_nth:
  "k < length (cpu_idt s) \<Longrightarrow>
   cpu_idt (idt_loop i s) ! k =
     (if i \<le> k \<and> k < IDT_ENTRY_COUNT
      then format_idt_entry (cpu_int_handlers s ! k) IDT_TYPE_INT_GATE
             (IDT_FLAG_PRESENT OR IDT_FLAG_PL0)
      else cpu_idt s ! k)"
proof (induction i s rule: idt_loop.induct)
  case (1 i s)
  show ?case
  proof (cases "i < IDT_ENTRY_COUNT")
    case True
    let ?s' = "s\<lparr>cpu_idt := (cpu_idt s)[i :=
         format_idt_entry (cpu_int_handlers s ! i) IDT_TYPE_INT_GATE
           (IDT_FLAG_PRESENT OR IDT_FLAG_PL0)]\<rparr>"
    have step: "idt_loop i s = idt_loop (i + 1) ?s'" using True by (rule idt_loop_step)
    have k': "k < length (cpu_idt ?s')" using "1.prems" by simp
    have ih: "cpu_idt (idt_loop (i + 1) ?s') ! k =
       (if i + 1 \<le> k \<and> k < IDT_ENTRY_COUNT
        then format_idt_entry (cpu_int_handlers ?s' ! k) IDT_TYPE_INT_GATE
               (IDT_FLAG_PRESENT OR IDT_FLAG_PL0)
        else cpu_idt ?s' ! k)"
      using "1.IH" [OF True k'] .
    show ?thesis
    proof (cases "k = i")
      case True
      then show ?thesis using ih \<open>i < IDT_ENTRY_COUNT\<close> "1.prems" by (simp add: step)
    next
      case False
      then show ?thesis using ih "1.prems" by (auto simp add: step)
    qed
  next
    case False
    then show ?thesis by (auto simp add: idt_loop_stop)
  qed
qed

lemma idt_loop_0_eq:
  assumes "length (cpu_idt t) = IDT_ENTRY_COUNT"
  shows "idt_loop 0 t =
     t\<lparr>cpu_idt := map (\<lambda>k. format_idt_entry (cpu_int_handlers t ! k) IDT_TYPE_INT_GATE
                                (IDT_FLAG_PRESENT OR IDT_FLAG_PL0)) [0..<IDT_ENTRY_COUNT]\<rparr>"
proof -
  have "cpu_idt (idt_loop 0 t) =
      map (\<lambda>k. format_idt_entry (cpu_int_handlers t ! k) IDT_TYPE_INT_GATE
                  (IDT_FLAG_PRESENT OR IDT_FLAG_PL0)) [0..<IDT_ENTRY_COUNT]"
  proof (rule nth_equalityI)
    show "length (cpu_idt (idt_loop 0 t)) =
          length (map (\<lambda>k. format_idt_entry (cpu_int_handlers t ! k) IDT_TYPE_INT_GATE
                  (IDT_FLAG_PRESENT OR IDT_FLAG_PL0)) [0..<IDT_ENTRY_COUNT])"
      using assms by (simp add: idt_loop_length)
  next
    fix k assume "k < length (cpu_idt (idt_loop 0 t))"
    then have k: "k < IDT_ENTRY_COUNT" using assms by (simp add: idt_loop_length)
    then show "cpu_idt (idt_loop 0 t) ! k =
               map (\<lambda>k. format_idt_entry (cpu_int_handlers t ! k) IDT_TYPE_INT_GATE
                  (IDT_FLAG_PRESENT OR IDT_FLAG_PL0)) [0..<IDT_ENTRY_COUNT] ! k"
      using assms by (simp add: idt_loop_nth)
  qed
  then show ?thesis by (subst idt_loop_frame) simp
qed

lemma cpu_setup_idt_eq:
  "cpu_setup_idt cfg s =
     s\<lparr>cpu_idt := map (\<lambda>k. format_idt_entry (cpu_int_handlers s ! k) IDT_TYPE_INT_GATE
                                (IDT_FLAG_PRESENT OR IDT_FLAG_PL0)) [0..<IDT_ENTRY_COUNT],
       cpu_idt_ptr := \<lparr>idt_size = ucast (8 * of_nat IDT_ENTRY_COUNT - 1 :: 32 word),
                       idt_base = cpu_idt_addr cfg\<rparr>,
       reg_idtr := (ucast (8 * of_nat IDT_ENTRY_COUNT - 1 :: 32 word), cpu_idt_addr cfg),
       effects := effects s
         @ [KERNEL_TRACE_EVENT EVENT_KERNEL_CPU_SET_IDT_START []]
         @ (if CPU_DEBUG_ENABLED cfg then [KERNEL_DEBUG ''Setting IDT'' []] else [])
         @ [KERNEL_SUCCESS ''IDT Initialized at 0x%P\<newline>'' [ArgWord (cpu_idt_addr cfg)],
            KERNEL_TRACE_EVENT EVENT_KERNEL_CPU_SET_IDT_END [ArgWord (cpu_idt_addr cfg), ArgWord 0]]\<rparr>"
  unfolding cpu_setup_idt_def Let_def kernel_debug_effects kernel_trace_event_def
    kernel_success_def
  by (simp add: idt_loop_0_eq)

lemma nth_cpu_int_handlers_init:
  "v < 256 \<Longrightarrow> cpu_int_handlers_init cfg ! v = interrupt_handler cfg v"
  unfolding cpu_int_handlers_init_def by (simp only: nth_map length_upt nth_upt) simp

lemma int_gate_decoded:
  "IDT_TYPE_INT_GATE AND 0xF = IDT_TYPE_INT_GATE"
  "(ucast (take_bit 2 (drop_bit 5 (IDT_FLAG_PRESENT OR IDT_FLAG_PL0))) :: 8 word) = 0"
  "bit (IDT_FLAG_PRESENT OR IDT_FLAG_PL0) 7"
  by (simp_all add: IDT_TYPE_INT_GATE_def IDT_FLAG_PRESENT_def IDT_FLAG_PL0_def)

text \<open>
  Claim C2. After \<^verbatim>\<open>_cpu_setup_idt\<close>, run while the handler table holds its initialiser,
  the gate table has 256 entries and the entry of every vector \<^verbatim>\<open>v\<close> below 256 reads back
  as: handler address the address of trampoline \<^verbatim>\<open>v\<close>, selector the kernel code selector,
  type interrupt gate, privilege level 0, present.
\<close>

theorem cpu_setup_idt_gates:
  assumes "cpu_int_handlers s = cpu_int_handlers_init cfg"
    and "v < 256"
  shows "length (cpu_idt (cpu_setup_idt cfg s)) = 256 \<and>
         idt_entry_handler (cpu_idt (cpu_setup_idt cfg s) ! v) = interrupt_handler cfg v \<and>
         idt_entry_selector (cpu_idt (cpu_setup_idt cfg s) ! v) = KERNEL_CS_32 \<and>
         idt_entry_type (cpu_idt (cpu_setup_idt cfg s) ! v) = IDT_TYPE_INT_GATE \<and>
         idt_entry_dpl (cpu_idt (cpu_setup_idt cfg s) ! v) = 0 \<and>
         idt_entry_present (cpu_idt (cpu_setup_idt cfg s) ! v)"
proof -
  from assms(2) have v: "v < IDT_ENTRY_COUNT" by (simp add: IDT_ENTRY_COUNT_def)
  have len: "length (cpu_idt (cpu_setup_idt cfg s)) = IDT_ENTRY_COUNT"
    by (simp add: cpu_setup_idt_eq)
  have entry: "cpu_idt (cpu_setup_idt cfg s) ! v =
      format_idt_entry (interrupt_handler cfg v) IDT_TYPE_INT_GATE (IDT_FLAG_PRESENT OR IDT_FLAG_PL0)"
    using v assms by (simp add: cpu_setup_idt_eq nth_cpu_int_handlers_init)
  have "length (cpu_idt (cpu_setup_idt cfg s)) = 256"
    using len by (simp add: IDT_ENTRY_COUNT_def)
  moreover have "idt_entry_handler (cpu_idt (cpu_setup_idt cfg s) ! v) = interrupt_handler cfg v"
    by (simp only: entry idt_entry_handler_format)
  moreover have "idt_entry_selector (cpu_idt (cpu_setup_idt cfg s) ! v) = KERNEL_CS_32"
    by (simp only: entry idt_entry_selector_format)
  moreover have "idt_entry_type (cpu_idt (cpu_setup_idt cfg s) ! v) = IDT_TYPE_INT_GATE"
    by (simp only: entry idt_entry_type_format int_gate_decoded)
  moreover have "idt_entry_dpl (cpu_idt (cpu_setup_idt cfg s) ! v) = 0"
    by (simp only: entry idt_entry_dpl_format int_gate_decoded)
  moreover have "idt_entry_present (cpu_idt (cpu_setup_idt cfg s) ! v)"
    by (simp only: entry idt_entry_present_format int_gate_decoded)
  ultimately show ?thesis by (intro conjI)
qed

theorem cpu_setup_idt_gates_witness:
  "cpu_int_handlers boot4 = cpu_int_handlers_init cfg4 \<and>
   length (cpu_idt (cpu_setup_idt cfg4 boot4)) = 256 \<and>
   idt_entry_handler (cpu_idt (cpu_setup_idt cfg4 boot4) ! 255) = 0xE0108FF0 \<and>
   idt_entry_selector (cpu_idt (cpu_setup_idt cfg4 boot4) ! 255) = 0x08 \<and>
   idt_entry_type (cpu_idt (cpu_setup_idt cfg4 boot4) ! 255) = 0x0E \<and>
   idt_entry_dpl (cpu_idt (cpu_setup_idt cfg4 boot4) ! 255) = 0 \<and>
   idt_entry_present (cpu_idt (cpu_setup_idt cfg4 boot4) ! 255)"
proof -
  have h: "cpu_int_handlers boot4 = cpu_int_handlers_init cfg4"
    by (simp add: boot4_def boot_state_def)
  have a: "interrupt_handler cfg4 255 = 0xE0108FF0" by (simp add: cfg4_def)
  show ?thesis
    using h cpu_setup_idt_gates [OF h, of 255] a
    by (simp add: KERNEL_CS_32_def IDT_TYPE_INT_GATE_def)
qed


section \<open>The task-state records after setup\<close>

lemma tss_loop_step:
  "i < MAX_CPU_COUNT cfg \<Longrightarrow>
   tss_loop cfg i s = tss_loop cfg (i + 1)
     (s\<lparr>cpu_tss := (cpu_tss s)[i := (cpu_tss s ! i)
          \<lparr>ss0 := KERNEL_DS_32,
           esp0 := KERNEL_STACKS_BASE cfg + KERNEL_STACK_SIZE cfg * (of_nat i + 1) - 4,
           es := KERNEL_DS_32, cs := KERNEL_CS_32, ss := KERNEL_DS_32, ds := KERNEL_DS_32,
           fs := KERNEL_DS_32, gs := KERNEL_DS_32,
           iomap_base := of_nat sizeof_cpu_tss_entry_t\<rparr>]\<rparr>)"
  by (subst tss_loop.simps) simp

lemma tss_loop_stop: "\<not> i < MAX_CPU_COUNT cfg \<Longrightarrow> tss_loop cfg i s = s"
  by (subst tss_loop.simps) simp

lemma tss_loop_frame: "tss_loop cfg i s = s\<lparr>cpu_tss := cpu_tss (tss_loop cfg i s)\<rparr>"
proof (induction cfg i s rule: tss_loop.induct)
  case (1 cfg i s)
  show ?case
  proof (cases "i < MAX_CPU_COUNT cfg")
    case True
    let ?s' = "s\<lparr>cpu_tss := (cpu_tss s)[i := (cpu_tss s ! i)
          \<lparr>ss0 := KERNEL_DS_32,
           esp0 := KERNEL_STACKS_BASE cfg + KERNEL_STACK_SIZE cfg * (of_nat i + 1) - 4,
           es := KERNEL_DS_32, cs := KERNEL_CS_32, ss := KERNEL_DS_32, ds := KERNEL_DS_32,
           fs := KERNEL_DS_32, gs := KERNEL_DS_32,
           iomap_base := of_nat sizeof_cpu_tss_entry_t\<rparr>]\<rparr>"
    have step: "tss_loop cfg i s = tss_loop cfg (i + 1) ?s'" using True by (rule tss_loop_step)
    have ih: "tss_loop cfg (i + 1) ?s' = ?s'\<lparr>cpu_tss := cpu_tss (tss_loop cfg (i + 1) ?s')\<rparr>"
      using "1" True by simp
    have "?s'\<lparr>cpu_tss := cpu_tss (tss_loop cfg (i + 1) ?s')\<rparr>
          = s\<lparr>cpu_tss := cpu_tss (tss_loop cfg (i + 1) ?s')\<rparr>" by simp
    with ih have "tss_loop cfg (i + 1) ?s' = s\<lparr>cpu_tss := cpu_tss (tss_loop cfg (i + 1) ?s')\<rparr>"
      by (rule trans)
    then show ?thesis by (simp only: step)
  next
    case False
    then show ?thesis by (simp add: tss_loop_stop)
  qed
qed

lemma tss_loop_length: "length (cpu_tss (tss_loop cfg i s)) = length (cpu_tss s)"
proof (induction cfg i s rule: tss_loop.induct)
  case (1 cfg i s)
  show ?case
  proof (cases "i < MAX_CPU_COUNT cfg")
    case True
    with "1" show ?thesis by (simp add: tss_loop_step)
  next
    case False
    then show ?thesis by (simp add: tss_loop_stop)
  qed
qed

lemma tss_loop_nth:
  "k < length (cpu_tss s) \<Longrightarrow>
   cpu_tss (tss_loop cfg i s) ! k =
     (if i \<le> k \<and> k < MAX_CPU_COUNT cfg
      then (cpu_tss s ! k)
          \<lparr>ss0 := KERNEL_DS_32,
           esp0 := KERNEL_STACKS_BASE cfg + KERNEL_STACK_SIZE cfg * (of_nat k + 1) - 4,
           es := KERNEL_DS_32, cs := KERNEL_CS_32, ss := KERNEL_DS_32, ds := KERNEL_DS_32,
           fs := KERNEL_DS_32, gs := KERNEL_DS_32,
           iomap_base := of_nat sizeof_cpu_tss_entry_t\<rparr>
      else cpu_tss s ! k)"
proof (induction cfg i s rule: tss_loop.induct)
  case (1 cfg i s)
  show ?case
  proof (cases "i < MAX_CPU_COUNT cfg")
    case True
    let ?s' = "s\<lparr>cpu_tss := (cpu_tss s)[i := (cpu_tss s ! i)
          \<lparr>ss0 := KERNEL_DS_32,
           esp0 := KERNEL_STACKS_BASE cfg + KERNEL_STACK_SIZE cfg * (of_nat i + 1) - 4,
           es := KERNEL_DS_32, cs := KERNEL_CS_32, ss := KERNEL_DS_32, ds := KERNEL_DS_32,
           fs := KERNEL_DS_32, gs := KERNEL_DS_32,
           iomap_base := of_nat sizeof_cpu_tss_entry_t\<rparr>]\<rparr>"
    have step: "tss_loop cfg i s = tss_loop cfg (i + 1) ?s'" using True by (rule tss_loop_step)
    have k': "k < length (cpu_tss ?s')" using "1.prems" by simp
    note ih = "1.IH" [OF True k']
    show ?thesis
    proof (cases "k = i")
      case True
      then show ?thesis using ih \<open>i < MAX_CPU_COUNT cfg\<close> "1.prems" by (simp add: step)
    next
      case False
      then show ?thesis using ih "1.prems" by (auto simp add: step)
    qed
  next
    case False
    then show ?thesis by (auto simp add: tss_loop_stop)
  qed
qed

lemma tss_loop_0_eq:
  assumes "length (cpu_tss t) = MAX_CPU_COUNT cfg"
  shows "tss_loop cfg 0 t =
     t\<lparr>cpu_tss := map (\<lambda>k. (cpu_tss t ! k)
          \<lparr>ss0 := KERNEL_DS_32,
           esp0 := KERNEL_STACKS_BASE cfg + KERNEL_STACK_SIZE cfg * (of_nat k + 1) - 4,
           es := KERNEL_DS_32, cs := KERNEL_CS_32, ss := KERNEL_DS_32, ds := KERNEL_DS_32,
           fs := KERNEL_DS_32, gs := KERNEL_DS_32,
           iomap_base := of_nat sizeof_cpu_tss_entry_t\<rparr>) [0..<MAX_CPU_COUNT cfg]\<rparr>"
proof -
  have "cpu_tss (tss_loop cfg 0 t) =
      map (\<lambda>k. (cpu_tss t ! k)
          \<lparr>ss0 := KERNEL_DS_32,
           esp0 := KERNEL_STACKS_BASE cfg + KERNEL_STACK_SIZE cfg * (of_nat k + 1) - 4,
           es := KERNEL_DS_32, cs := KERNEL_CS_32, ss := KERNEL_DS_32, ds := KERNEL_DS_32,
           fs := KERNEL_DS_32, gs := KERNEL_DS_32,
           iomap_base := of_nat sizeof_cpu_tss_entry_t\<rparr>) [0..<MAX_CPU_COUNT cfg]"
    using assms by (intro nth_equalityI) (simp_all add: tss_loop_length tss_loop_nth)
  then show ?thesis by (subst tss_loop_frame) simp
qed

lemma cpu_setup_tss_eq:
  "cpu_setup_tss cfg s =
     s\<lparr>cpu_tss := map (\<lambda>k. zero_tss_entry
          \<lparr>ss0 := KERNEL_DS_32,
           esp0 := KERNEL_STACKS_BASE cfg + KERNEL_STACK_SIZE cfg * (of_nat k + 1) - 4,
           es := KERNEL_DS_32, cs := KERNEL_CS_32, ss := KERNEL_DS_32, ds := KERNEL_DS_32,
           fs := KERNEL_DS_32, gs := KERNEL_DS_32,
           iomap_base := of_nat sizeof_cpu_tss_entry_t\<rparr>) [0..<MAX_CPU_COUNT cfg],
       reg_tr := ucast TSS_SEGMENT,
       effects := effects s
         @ [KERNEL_TRACE_EVENT EVENT_KERNEL_CPU_SET_TSS_START []]
         @ (if CPU_DEBUG_ENABLED cfg then [KERNEL_DEBUG ''Setting TSS'' []] else [])
         @ [KERNEL_SUCCESS ''TSS Initialized at 0x%P\<newline>'' [ArgWord (cpu_tss_addr cfg)],
            KERNEL_TRACE_EVENT EVENT_KERNEL_CPU_SET_TSS_END [ArgWord (cpu_tss_addr cfg), ArgWord 0]]\<rparr>"
  unfolding cpu_setup_tss_def Let_def kernel_debug_effects kernel_trace_event_def
    kernel_success_def
  by (simp add: tss_loop_0_eq cong: map_cong)

text \<open>
  Claim C3. After \<^verbatim>\<open>_cpu_setup_tss\<close> there is one record per core and, for every core index
  \<^verbatim>\<open>i\<close> below the core count, record \<^verbatim>\<open>i\<close> has the kernel data selector as ring-0 stack
  selector, \<^verbatim>\<open>stacksBase + stackSize * (i + 1) - 4\<close> (on 32 bits) as ring-0 stack pointer,
  the kernel data selector in ES, SS, DS, FS and GS, the kernel code selector in CS, the
  size of the record as I/O map base, and zero everywhere else.
\<close>

theorem cpu_setup_tss_records:
  assumes "i < MAX_CPU_COUNT cfg"
  shows "length (cpu_tss (cpu_setup_tss cfg s)) = MAX_CPU_COUNT cfg \<and>
         cpu_tss (cpu_setup_tss cfg s) ! i =
           \<lparr>prev_tss = 0,
            esp0 = KERNEL_STACKS_BASE cfg + KERNEL_STACK_SIZE cfg * (of_nat i + 1) - 4,
            ss0 = KERNEL_DS_32,
            esp1 = 0, ss1 = 0, esp2 = 0, ss2 = 0, cr3 = 0, eip = 0, eflags = 0,
            eax = 0, ecx = 0, edx = 0, ebx = 0, esp = 0, ebp = 0, esi = 0, edi = 0,
            es = KERNEL_DS_32, cs = KERNEL_CS_32, ss = KERNEL_DS_32, ds = KERNEL_DS_32,
            fs = KERNEL_DS_32, gs = KERNEL_DS_32,
            ldt = 0, reserved = 0, iomap_base = of_nat sizeof_cpu_tss_entry_t\<rparr> \<and>
         unat (iomap_base (cpu_tss (cpu_setup_tss cfg s) ! i)) = sizeof_cpu_tss_entry_t"
proof -
  have "unat (of_nat sizeof_cpu_tss_entry_t :: 16 word) = sizeof_cpu_tss_entry_t"
    by (simp add: sizeof_cpu_tss_entry_t_def)
  then show ?thesis
    using assms by (simp add: cpu_setup_tss_eq zero_tss_entry_def)
qed

theorem cpu_setup_tss_records_witness:
  "length (cpu_tss (cpu_setup_tss cfg4 boot4)) = 4 \<and>
   ss0 (cpu_tss (cpu_setup_tss cfg4 boot4) ! 2) = 0x10 \<and>
   esp0 (cpu_tss (cpu_setup_tss cfg4 boot4) ! 2) = 0x3FFC \<and>
   cs (cpu_tss (cpu_setup_tss cfg4 boot4) ! 2) = 0x08 \<and>
   ds (cpu_tss (cpu_setup_tss cfg4 boot4) ! 2) = 0x10 \<and>
   esp1 (cpu_tss (cpu_setup_tss cfg4 boot4) ! 2) = 0 \<and>
   iomap_base (cpu_tss (cpu_setup_tss cfg4 boot4) ! 2) = 104"
proof -
  have h: "2 < MAX_CPU_COUNT cfg4" by (simp add: cfg4_def)
  show ?thesis
    using cpu_setup_tss_records [OF h, of boot4]
    by (simp add: cfg4_def KERNEL_DS_32_def KERNEL_CS_32_def sizeof_cpu_tss_entry_t_def)
qed

text \<open>
  Claim C4 (as amended). With four cores, 4096-byte stacks from 0x1000 and 4-byte words,
  record 0 gets the ring-0 stack pointer 0x1FFC and record 3 gets 0x4FFC (not 0x3FFC,
  which is the value of record 2); the four stack pointers are pairwise different.
\<close>

theorem cpu_setup_tss_four_cores:
  "length (cpu_tss (cpu_setup_tss cfg4 s)) = 4 \<and>
   esp0 (cpu_tss (cpu_setup_tss cfg4 s) ! 0) = 0x1FFC \<and>
   esp0 (cpu_tss (cpu_setup_tss cfg4 s) ! 3) = 0x4FFC \<and>
   map esp0 (cpu_tss (cpu_setup_tss cfg4 s)) = [0x1FFC, 0x2FFC, 0x3FFC, 0x4FFC] \<and>
   distinct (map esp0 (cpu_tss (cpu_setup_tss cfg4 s)))"
proof -
  have m: "MAX_CPU_COUNT cfg4 = 4" "KERNEL_STACKS_BASE cfg4 = 0x1000"
    "KERNEL_STACK_SIZE cfg4 = 4096"
    by (simp_all add: cfg4_def)
  have u: "[0..<4] = [0, 1, 2, 3]" by (simp add: upt_rec)
  have l: "map esp0 (cpu_tss (cpu_setup_tss cfg4 s)) = [0x1FFC, 0x2FFC, 0x3FFC, 0x4FFC]"
    by (simp add: cpu_setup_tss_eq m u)
  have d: "distinct [0x1FFC, 0x2FFC, 0x3FFC, 0x4FFC :: 32 word]" by simp
  have n0: "esp0 (cpu_tss (cpu_setup_tss cfg4 s) ! 0) = map esp0 (cpu_tss (cpu_setup_tss cfg4 s)) ! 0"
    by (simp add: cpu_setup_tss_eq m)
  have n3: "esp0 (cpu_tss (cpu_setup_tss cfg4 s) ! 3) = map esp0 (cpu_tss (cpu_setup_tss cfg4 s)) ! 3"
    by (simp add: cpu_setup_tss_eq m)
  show ?thesis
    using d by (simp add: n0 n3 l) (simp add: cpu_setup_tss_eq m)
qed

theorem cpu_setup_tss_four_cores_witness:
  "esp0 (cpu_tss (cpu_setup_tss cfg4 boot4) ! 0) = 0x1FFC \<and>
   esp0 (cpu_tss (cpu_setup_tss cfg4 boot4) ! 3) = 0x4FFC \<and>
   distinct (map esp0 (cpu_tss (cpu_setup_tss cfg4 boot4)))"
  using cpu_setup_tss_four_cores [of boot4] by simp

text \<open>
  The value 0x3FFC stated for record 3 is not what the code stores there.
\<close>

theorem cpu_setup_tss_record3_counterexample:
  "esp0 (cpu_tss (cpu_setup_tss cfg4 boot4) ! 3) \<noteq> 0x3FFC"
proof -
  have "3 < MAX_CPU_COUNT cfg4" by (simp add: cfg4_def)
  then have "esp0 (cpu_tss (cpu_setup_tss cfg4 boot4) ! 3) = 0x4FFC"
    by (simp add: cpu_setup_tss_eq cfg4_def)
  then show ?thesis by simp
qed


section \<open>The segment table after setup\<close>

lemma tss_index:
  assumes "i < 8185"
  shows "unat ((TSS_SEGMENT + of_nat i * 0x08) div 8 :: 32 word) = 7 + i"
proof -
  have "TSS_SEGMENT + of_nat i * 0x08 = (of_nat (56 + i * 8) :: 32 word)"
    by (simp add: TSS_SEGMENT_def)
  moreover have "unat (of_nat (56 + i * 8) :: 32 word) = 56 + i * 8"
    by (rule unat_of_nat32) (use assms in simp)
  ultimately have "unat (TSS_SEGMENT + of_nat i * 0x08 :: 32 word) = 56 + i * 8"
    by (simp only:)
  then show ?thesis by (simp add: unat_div)
qed

lemma fixed_indexes:
  "unat (KERNEL_CS_32 div 8) = 1" "unat (KERNEL_DS_32 div 8) = 2"
  "unat (KERNEL_CS_16 div 8) = 3" "unat (KERNEL_DS_16 div 8) = 4"
  "unat (USER_CS_32 div 8) = 5" "unat (USER_DS_32 div 8) = 6"
  by (simp_all add: unat_div KERNEL_CS_32_def KERNEL_DS_32_def KERNEL_CS_16_def KERNEL_DS_16_def
      USER_CS_32_def USER_DS_32_def)

lemma gdt_tss_loop_step:
  "i < MAX_CPU_COUNT cfg \<Longrightarrow>
   gdt_tss_loop cfg ty fl i s = gdt_tss_loop cfg ty fl (i + 1)
     (gdt_store (unat ((TSS_SEGMENT + of_nat i * 0x08) div 8))
        (format_gdt_entry (cpu_tss_addr cfg + of_nat i * of_nat sizeof_cpu_tss_entry_t)
           (of_nat sizeof_cpu_tss_entry_t) (ucast ty) fl) s)"
  by (subst gdt_tss_loop.simps) simp

lemma gdt_tss_loop_stop: "\<not> i < MAX_CPU_COUNT cfg \<Longrightarrow> gdt_tss_loop cfg ty fl i s = s"
  by (subst gdt_tss_loop.simps) simp

lemma gdt_tss_loop_frame:
  "gdt_tss_loop cfg ty fl i s = s\<lparr>cpu_gdt := cpu_gdt (gdt_tss_loop cfg ty fl i s)\<rparr>"
proof (induction cfg ty fl i s rule: gdt_tss_loop.induct)
  case (1 cfg ty fl i s)
  show ?case
  proof (cases "i < MAX_CPU_COUNT cfg")
    case True
    let ?s' = "gdt_store (unat ((TSS_SEGMENT + of_nat i * 0x08) div 8))
        (format_gdt_entry (cpu_tss_addr cfg + of_nat i * of_nat sizeof_cpu_tss_entry_t)
           (of_nat sizeof_cpu_tss_entry_t) (ucast ty) fl) s"
    have step: "gdt_tss_loop cfg ty fl i s = gdt_tss_loop cfg ty fl (i + 1) ?s'"
      using True by (rule gdt_tss_loop_step)
    have ih: "gdt_tss_loop cfg ty fl (i + 1) ?s' =
              ?s'\<lparr>cpu_gdt := cpu_gdt (gdt_tss_loop cfg ty fl (i + 1) ?s')\<rparr>"
      using "1" True by simp
    have "?s'\<lparr>cpu_gdt := cpu_gdt (gdt_tss_loop cfg ty fl (i + 1) ?s')\<rparr>
          = s\<lparr>cpu_gdt := cpu_gdt (gdt_tss_loop cfg ty fl (i + 1) ?s')\<rparr>"
      by (simp add: gdt_store_def)
    with ih have "gdt_tss_loop cfg ty fl (i + 1) ?s' =
                  s\<lparr>cpu_gdt := cpu_gdt (gdt_tss_loop cfg ty fl (i + 1) ?s')\<rparr>"
      by (rule trans)
    then show ?thesis by (simp only: step)
  next
    case False
    then show ?thesis by (simp add: gdt_tss_loop_stop)
  qed
qed

lemma gdt_tss_loop_length:
  "length (cpu_gdt (gdt_tss_loop cfg ty fl i s)) = length (cpu_gdt s)"
proof (induction cfg ty fl i s rule: gdt_tss_loop.induct)
  case (1 cfg ty fl i s)
  show ?case
  proof (cases "i < MAX_CPU_COUNT cfg")
    case True
    with "1" show ?thesis by (simp add: gdt_tss_loop_step gdt_store_def)
  next
    case False
    then show ?thesis by (simp add: gdt_tss_loop_stop)
  qed
qed

lemma gdt_tss_loop_nth:
  "MAX_CPU_COUNT cfg \<le> 8185 \<Longrightarrow> k < length (cpu_gdt s) \<Longrightarrow>
   cpu_gdt (gdt_tss_loop cfg ty fl i s) ! k =
     (if 7 + i \<le> k \<and> k < 7 + MAX_CPU_COUNT cfg
      then format_gdt_entry (cpu_tss_addr cfg + of_nat (k - 7) * of_nat sizeof_cpu_tss_entry_t)
             (of_nat sizeof_cpu_tss_entry_t) (ucast ty) fl
      else cpu_gdt s ! k)"
proof (induction cfg ty fl i s rule: gdt_tss_loop.induct)
  case (1 cfg ty fl i s)
  show ?case
  proof (cases "i < MAX_CPU_COUNT cfg")
    case True
    let ?s' = "gdt_store (unat ((TSS_SEGMENT + of_nat i * 0x08) div 8))
        (format_gdt_entry (cpu_tss_addr cfg + of_nat i * of_nat sizeof_cpu_tss_entry_t)
           (of_nat sizeof_cpu_tss_entry_t) (ucast ty) fl) s"
    have step: "gdt_tss_loop cfg ty fl i s = gdt_tss_loop cfg ty fl (i + 1) ?s'"
      using True by (rule gdt_tss_loop_step)
    have idx: "unat ((TSS_SEGMENT + of_nat i * 0x08) div 8 :: 32 word) = 7 + i"
      using True "1.prems"(1) by (intro tss_index) simp
    have s': "cpu_gdt ?s' = (cpu_gdt s)[7 + i :=
        format_gdt_entry (cpu_tss_addr cfg + of_nat i * of_nat sizeof_cpu_tss_entry_t)
           (of_nat sizeof_cpu_tss_entry_t) (ucast ty) fl]"
      by (simp only: gdt_store_def idx) simp
    have k': "k < length (cpu_gdt ?s')" using "1.prems"(2) by (simp add: s')
    note ih = "1.IH" [OF True "1.prems"(1) k']
    show ?thesis
    proof (cases "k = 7 + i")
      case True
      then show ?thesis using ih \<open>i < MAX_CPU_COUNT cfg\<close> "1.prems"(2)
        by (simp add: step s')
    next
      case False
      then show ?thesis using ih "1.prems"(2) by (auto simp add: step s')
    qed
  next
    case False
    then show ?thesis by (auto simp add: gdt_tss_loop_stop)
  qed
qed

lemma gdt_tss_loop_0_eq:
  assumes "MAX_CPU_COUNT cfg \<le> 8185"
    and "length (cpu_gdt t) = 7 + MAX_CPU_COUNT cfg"
  shows "gdt_tss_loop cfg ty fl 0 t =
     t\<lparr>cpu_gdt := take 7 (cpu_gdt t) @
          map (\<lambda>i. format_gdt_entry (cpu_tss_addr cfg + of_nat i * of_nat sizeof_cpu_tss_entry_t)
                      (of_nat sizeof_cpu_tss_entry_t) (ucast ty) fl) [0..<MAX_CPU_COUNT cfg]\<rparr>"
proof -
  have "cpu_gdt (gdt_tss_loop cfg ty fl 0 t) = take 7 (cpu_gdt t) @
          map (\<lambda>i. format_gdt_entry (cpu_tss_addr cfg + of_nat i * of_nat sizeof_cpu_tss_entry_t)
                      (of_nat sizeof_cpu_tss_entry_t) (ucast ty) fl) [0..<MAX_CPU_COUNT cfg]"
  proof (rule nth_equalityI)
    show "length (cpu_gdt (gdt_tss_loop cfg ty fl 0 t)) = length (take 7 (cpu_gdt t) @
          map (\<lambda>i. format_gdt_entry (cpu_tss_addr cfg + of_nat i * of_nat sizeof_cpu_tss_entry_t)
                      (of_nat sizeof_cpu_tss_entry_t) (ucast ty) fl) [0..<MAX_CPU_COUNT cfg])"
      using assms(2) by (simp add: gdt_tss_loop_length)
  next
    fix k assume "k < length (cpu_gdt (gdt_tss_loop cfg ty fl 0 t))"
    then have k: "k < 7 + MAX_CPU_COUNT cfg" using assms(2) by (simp add: gdt_tss_loop_length)
    then have kl: "k < length (cpu_gdt t)" using assms(2) by simp
    show "cpu_gdt (gdt_tss_loop cfg ty fl 0 t) ! k = (take 7 (cpu_gdt t) @
          map (\<lambda>i. format_gdt_entry (cpu_tss_addr cfg + of_nat i * of_nat sizeof_cpu_tss_entry_t)
                      (of_nat sizeof_cpu_tss_entry_t) (ucast ty) fl) [0..<MAX_CPU_COUNT cfg]) ! k"
    proof (cases "k < 7")
      case True
      then show ?thesis using assms kl
        by (simp add: gdt_tss_loop_nth [OF assms(1) kl] nth_append)
    next
      case False
      then show ?thesis using assms k kl
        by (simp add: gdt_tss_loop_nth [OF assms(1) kl] nth_append)
    qed
  qed
  then show ?thesis by (subst gdt_tss_loop_frame) simp
qed

lemma take7_fixed:
  "take 7 ((replicate (7 + n) (0 :: 64 word))[1 := a, 2 := b, 3 := c, 4 := d, 5 := e, 6 := f])
     = [0, a, b, c, d, e, f]"
proof -
  have "replicate (7 + n) (0 :: 64 word) = [0, 0, 0, 0, 0, 0, 0] @ replicate n 0"
    by (simp add: replicate_add numeral_eq_Suc)
  then show ?thesis by (simp add: list_update_append numeral_eq_Suc)
qed

lemma cpu_setup_gdt_cpu_gdt:
  assumes "MAX_CPU_COUNT cfg \<le> 8185"
  shows "cpu_gdt (cpu_setup_gdt cfg s) =
    [0,
     format_gdt_entry KERNEL_CODE_SEGMENT_BASE_32 KERNEL_CODE_SEGMENT_LIMIT_32
       (ucast (GDT_TYPE_EXECUTABLE OR GDT_TYPE_READABLE OR GDT_TYPE_PROTECTED))
       (GDT_FLAG_GRANULARITY_4K OR GDT_FLAG_32_BIT_SEGMENT OR GDT_FLAG_PL0 OR
        GDT_FLAG_SEGMENT_PRESENT OR GDT_FLAG_CODE_TYPE),
     format_gdt_entry KERNEL_DATA_SEGMENT_BASE_32 KERNEL_DATA_SEGMENT_LIMIT_32
       (ucast (GDT_TYPE_WRITABLE OR GDT_TYPE_GROW_DOWN))
       (GDT_FLAG_GRANULARITY_4K OR GDT_FLAG_32_BIT_SEGMENT OR GDT_FLAG_PL0 OR
        GDT_FLAG_SEGMENT_PRESENT OR GDT_FLAG_DATA_TYPE),
     format_gdt_entry KERNEL_CODE_SEGMENT_BASE_16 KERNEL_CODE_SEGMENT_LIMIT_16
       (ucast (GDT_TYPE_EXECUTABLE OR GDT_TYPE_READABLE OR GDT_TYPE_PROTECTED))
       (GDT_FLAG_GRANULARITY_4K OR GDT_FLAG_16_BIT_SEGMENT OR GDT_FLAG_PL0 OR
        GDT_FLAG_SEGMENT_PRESENT OR GDT_FLAG_CODE_TYPE),
     format_gdt_entry KERNEL_DATA_SEGMENT_BASE_16 KERNEL_DATA_SEGMENT_LIMIT_16
       (ucast (GDT_TYPE_WRITABLE OR GDT_TYPE_GROW_DOWN))
       (GDT_FLAG_GRANULARITY_4K OR GDT_FLAG_16_BIT_SEGMENT OR GDT_FLAG_PL0 OR
        GDT_FLAG_SEGMENT_PRESENT OR GDT_FLAG_DATA_TYPE),
     format_gdt_entry USER_CODE_SEGMENT_BASE_32 USER_CODE_SEGMENT_LIMIT_32
       (ucast (GDT_TYPE_EXECUTABLE OR GDT_TYPE_READABLE OR GDT_TYPE_PROTECTED))
       (GDT_FLAG_GRANULARITY_4K OR GDT_FLAG_32_BIT_SEGMENT OR GDT_FLAG_PL3 OR
        GDT_FLAG_SEGMENT_PRESENT OR GDT_FLAG_CODE_TYPE),
     format_gdt_entry USER_DATA_SEGMENT_BASE_32 USER_DATA_SEGMENT_LIMIT_32
       (ucast (GDT_TYPE_WRITABLE OR GDT_TYPE_GROW_DOWN))
       (GDT_FLAG_GRANULARITY_4K OR GDT_FLAG_32_BIT_SEGMENT OR GDT_FLAG_PL3 OR
        GDT_FLAG_SEGMENT_PRESENT OR GDT_FLAG_DATA_TYPE)]
    @ map (\<lambda>i. format_gdt_entry (cpu_tss_addr cfg + of_nat i * of_nat sizeof_cpu_tss_entry_t)
                  (of_nat sizeof_cpu_tss_entry_t)
                  (ucast (GDT_TYPE_ACCESSED OR GDT_TYPE_EXECUTABLE))
                  (GDT_FLAG_32_BIT_SEGMENT OR GDT_FLAG_SEGMENT_PRESENT OR GDT_FLAG_PL0))
          [0..<MAX_CPU_COUNT cfg]"
  unfolding cpu_setup_gdt_def Let_def kernel_debug_effects kernel_trace_event_def
    kernel_success_def gdt_store_def fixed_indexes GDT_ENTRY_COUNT_def
  by (simp add: gdt_tss_loop_0_eq [OF assms] take7_fixed [simplified])

lemma gdt_tss_loop_other:
  "cpu_gdt_ptr (gdt_tss_loop cfg ty fl i s) = cpu_gdt_ptr s"
  "cpu_idt (gdt_tss_loop cfg ty fl i s) = cpu_idt s"
  "cpu_idt_ptr (gdt_tss_loop cfg ty fl i s) = cpu_idt_ptr s"
  "cpu_tss (gdt_tss_loop cfg ty fl i s) = cpu_tss s"
  "cpu_int_handlers (gdt_tss_loop cfg ty fl i s) = cpu_int_handlers s"
  "effects (gdt_tss_loop cfg ty fl i s) = effects s"
  by (subst gdt_tss_loop_frame, simp)+

lemma cpu_setup_gdt_ptr:
  "cpu_gdt_ptr (cpu_setup_gdt cfg s) =
     \<lparr>gdt_size = ucast (8 * of_nat (GDT_ENTRY_COUNT cfg) - 1 :: 32 word),
      gdt_base = cpu_gdt_addr cfg\<rparr>"
  "reg_gdtr (cpu_setup_gdt cfg s) =
     (ucast (8 * of_nat (GDT_ENTRY_COUNT cfg) - 1 :: 32 word), cpu_gdt_addr cfg)"
  unfolding cpu_setup_gdt_def Let_def kernel_debug_effects kernel_trace_event_def
    kernel_success_def
  by simp_all

lemma cpu_setup_gdt_other:
  "cpu_idt (cpu_setup_gdt cfg s) = cpu_idt s"
  "cpu_idt_ptr (cpu_setup_gdt cfg s) = cpu_idt_ptr s"
  "cpu_tss (cpu_setup_gdt cfg s) = cpu_tss s"
  "cpu_int_handlers (cpu_setup_gdt cfg s) = cpu_int_handlers s"
  unfolding cpu_setup_gdt_def Let_def kernel_debug_effects kernel_trace_event_def
    kernel_success_def gdt_store_def
  by (simp_all add: gdt_tss_loop_other)

lemma unat_ucast16_of_nat:
  assumes "m < 65536"
  shows "unat (ucast (of_nat m :: 32 word) :: 16 word) = m"
proof -
  have "unat (of_nat m :: 32 word) = m" by (rule unat_of_nat32) (use assms in simp)
  then have "unat (ucast (of_nat m :: 32 word) :: 16 word) = take_bit 16 m"
    by (simp add: unsigned_ucast_eq)
  also have "take_bit 16 m = m" using assms by (simp add: take_bit_nat_eq_self)
  finally show ?thesis .
qed

lemma gdt_size_value:
  assumes "n \<le> 8185"
  shows "unat (ucast (8 * of_nat (7 + n) - 1 :: 32 word) :: 16 word) = (7 + n) * 8 - 1"
proof -
  have "(8 * of_nat (7 + n) - 1 :: 32 word) = of_nat (55 + 8 * n)" by simp
  moreover have "unat (ucast (of_nat (55 + 8 * n) :: 32 word) :: 16 word) = 55 + 8 * n"
    by (rule unat_ucast16_of_nat) (use assms in simp)
  ultimately have "unat (ucast (8 * of_nat (7 + n) - 1 :: 32 word) :: 16 word) = 55 + 8 * n"
    by (simp only:)
  then show ?thesis by simp
qed

lemma idt_size_value:
  "unat (ucast (8 * of_nat IDT_ENTRY_COUNT - 1 :: 32 word) :: 16 word) = 256 * 8 - 1"
  by (simp add: IDT_ENTRY_COUNT_def)

lemma cpu_init_fields:
  "cpu_gdt (cpu_init cfg s) =
     cpu_gdt (cpu_setup_gdt cfg (kernel_trace_event EVENT_KERNEL_CPU_SETUP_START [] s))"
  "cpu_gdt_ptr (cpu_init cfg s) =
     \<lparr>gdt_size = ucast (8 * of_nat (GDT_ENTRY_COUNT cfg) - 1 :: 32 word),
      gdt_base = cpu_gdt_addr cfg\<rparr>"
  "reg_gdtr (cpu_init cfg s) =
     (ucast (8 * of_nat (GDT_ENTRY_COUNT cfg) - 1 :: 32 word), cpu_gdt_addr cfg)"
  "cpu_idt_ptr (cpu_init cfg s) =
     \<lparr>idt_size = ucast (8 * of_nat IDT_ENTRY_COUNT - 1 :: 32 word),
      idt_base = cpu_idt_addr cfg\<rparr>"
  "reg_idtr (cpu_init cfg s) =
     (ucast (8 * of_nat IDT_ENTRY_COUNT - 1 :: 32 word), cpu_idt_addr cfg)"
  unfolding cpu_init_def Let_def cpu_setup_tss_eq cpu_setup_idt_eq
  by (simp_all add: kernel_trace_event_def cpu_setup_gdt_ptr)

text \<open>
  Claim C6. Provided the segment table fits its 16-bit limit (at most 8185 cores, that is
  8192 entries), after \<^verbatim>\<open>cpu_init\<close> the size field of the segment-table pseudo-descriptor
  is \<^verbatim>\<open>entryCount * 8 - 1\<close> with \<^verbatim>\<open>entryCount = 7 + MAX_CPU_COUNT\<close>, the size field of the
  gate-table pseudo-descriptor is \<^verbatim>\<open>256 * 8 - 1\<close>, the base fields are the addresses of
  \<^verbatim>\<open>cpu_gdt\<close> and \<^verbatim>\<open>cpu_idt\<close>, and the two table registers were loaded with these
  pseudo-descriptors. The same holds right after \<^verbatim>\<open>_cpu_setup_gdt\<close> and \<^verbatim>\<open>_cpu_setup_idt\<close>.
\<close>

theorem table_pointers:
  assumes "MAX_CPU_COUNT cfg \<le> 8185"
  shows "GDT_ENTRY_COUNT cfg = 7 + MAX_CPU_COUNT cfg \<and>
         unat (gdt_size (cpu_gdt_ptr (cpu_init cfg s))) = GDT_ENTRY_COUNT cfg * 8 - 1 \<and>
         gdt_base (cpu_gdt_ptr (cpu_init cfg s)) = cpu_gdt_addr cfg \<and>
         unat (idt_size (cpu_idt_ptr (cpu_init cfg s))) = 256 * 8 - 1 \<and>
         idt_base (cpu_idt_ptr (cpu_init cfg s)) = cpu_idt_addr cfg \<and>
         reg_gdtr (cpu_init cfg s) =
           (gdt_size (cpu_gdt_ptr (cpu_init cfg s)), gdt_base (cpu_gdt_ptr (cpu_init cfg s))) \<and>
         reg_idtr (cpu_init cfg s) =
           (idt_size (cpu_idt_ptr (cpu_init cfg s)), idt_base (cpu_idt_ptr (cpu_init cfg s))) \<and>
         unat (gdt_size (cpu_gdt_ptr (cpu_setup_gdt cfg s))) = GDT_ENTRY_COUNT cfg * 8 - 1 \<and>
         gdt_base (cpu_gdt_ptr (cpu_setup_gdt cfg s)) = cpu_gdt_addr cfg \<and>
         unat (idt_size (cpu_idt_ptr (cpu_setup_idt cfg s))) = 256 * 8 - 1 \<and>
         idt_base (cpu_idt_ptr (cpu_setup_idt cfg s)) = cpu_idt_addr cfg"
  using gdt_size_value [OF assms] idt_size_value
  by (simp add: cpu_init_fields cpu_setup_gdt_ptr cpu_setup_idt_eq GDT_ENTRY_COUNT_def)

theorem table_pointers_witness:
  "MAX_CPU_COUNT cfg4 \<le> 8185 \<and>
   GDT_ENTRY_COUNT cfg4 = 11 \<and>
   unat (gdt_size (cpu_gdt_ptr (cpu_init cfg4 boot4))) = 87 \<and>
   gdt_base (cpu_gdt_ptr (cpu_init cfg4 boot4)) = 0xE0158000 \<and>
   unat (idt_size (cpu_idt_ptr (cpu_init cfg4 boot4))) = 2047 \<and>
   idt_base (cpu_idt_ptr (cpu_init cfg4 boot4)) = 0xE0158100"
proof -
  have h: "MAX_CPU_COUNT cfg4 \<le> 8185" by (simp add: cfg4_def)
  have c: "MAX_CPU_COUNT cfg4 = 4" "cpu_gdt_addr cfg4 = 0xE0158000"
    "cpu_idt_addr cfg4 = 0xE0158100"
    by (simp_all add: cfg4_def)
  show ?thesis
    using h table_pointers [OF h, of boot4] by (simp add: c)
qed


lemma present_flags:
  "bit (GDT_FLAG_GRANULARITY_4K OR GDT_FLAG_32_BIT_SEGMENT OR GDT_FLAG_PL0 OR
        GDT_FLAG_SEGMENT_PRESENT OR GDT_FLAG_CODE_TYPE) 15"
  "bit (GDT_FLAG_GRANULARITY_4K OR GDT_FLAG_32_BIT_SEGMENT OR GDT_FLAG_PL0 OR
        GDT_FLAG_SEGMENT_PRESENT OR GDT_FLAG_DATA_TYPE) 15"
  "bit (GDT_FLAG_GRANULARITY_4K OR GDT_FLAG_16_BIT_SEGMENT OR GDT_FLAG_PL0 OR
        GDT_FLAG_SEGMENT_PRESENT OR GDT_FLAG_CODE_TYPE) 15"
  "bit (GDT_FLAG_GRANULARITY_4K OR GDT_FLAG_16_BIT_SEGMENT OR GDT_FLAG_PL0 OR
        GDT_FLAG_SEGMENT_PRESENT OR GDT_FLAG_DATA_TYPE) 15"
  "bit (GDT_FLAG_GRANULARITY_4K OR GDT_FLAG_32_BIT_SEGMENT OR GDT_FLAG_PL3 OR
        GDT_FLAG_SEGMENT_PRESENT OR GDT_FLAG_CODE_TYPE) 15"
  "bit (GDT_FLAG_GRANULARITY_4K OR GDT_FLAG_32_BIT_SEGMENT OR GDT_FLAG_PL3 OR
        GDT_FLAG_SEGMENT_PRESENT OR GDT_FLAG_DATA_TYPE) 15"
  "bit (GDT_FLAG_32_BIT_SEGMENT OR GDT_FLAG_SEGMENT_PRESENT OR GDT_FLAG_PL0) 15"
  by (simp_all add: GDT_FLAG_GRANULARITY_4K_def GDT_FLAG_32_BIT_SEGMENT_def
      GDT_FLAG_16_BIT_SEGMENT_def GDT_FLAG_PL0_def GDT_FLAG_PL3_def
      GDT_FLAG_SEGMENT_PRESENT_def GDT_FLAG_CODE_TYPE_def GDT_FLAG_DATA_TYPE_def)

lemma cpu_setup_gdt_length:
  assumes "MAX_CPU_COUNT cfg \<le> 8185"
  shows "length (cpu_gdt (cpu_setup_gdt cfg s)) = GDT_ENTRY_COUNT cfg"
  by (simp add: cpu_setup_gdt_cpu_gdt [OF assms] GDT_ENTRY_COUNT_def)

lemma cpu_setup_gdt_null:
  assumes "MAX_CPU_COUNT cfg \<le> 8185"
  shows "cpu_gdt (cpu_setup_gdt cfg s) ! 0 = 0"
  by (simp add: cpu_setup_gdt_cpu_gdt [OF assms])

lemma cpu_setup_gdt_present:
  assumes "MAX_CPU_COUNT cfg \<le> 8185" and "1 \<le> k" and "k < GDT_ENTRY_COUNT cfg"
  shows "gdt_entry_present (cpu_gdt (cpu_setup_gdt cfg s) ! k)"
proof -
  consider "k = 1" | "k = 2" | "k = 3" | "k = 4" | "k = 5" | "k = 6" | "7 \<le> k"
    using assms(2) by linarith
  then show ?thesis
  proof cases
    case 7
    then obtain i where i: "k = 7 + i" using le_Suc_ex by blast
    with assms(3) have "i < MAX_CPU_COUNT cfg" by (simp add: GDT_ENTRY_COUNT_def)
    then show ?thesis
      by (simp add: i cpu_setup_gdt_cpu_gdt [OF assms(1)] nth_append gdt_entry_present_format
          present_flags)
  qed (simp_all add: cpu_setup_gdt_cpu_gdt [OF assms(1)] gdt_entry_present_format present_flags)
qed

lemma gdt_tss_loop_null:
  assumes "MAX_CPU_COUNT cfg \<le> 8185" and "0 < length (cpu_gdt t)"
  shows "cpu_gdt (gdt_tss_loop cfg ty fl i t) ! 0 = cpu_gdt t ! 0"
  by (simp add: gdt_tss_loop_nth [OF assms])

lemma cpu_raise_interrupt_cpu_gdt:
  "cpu_gdt (snd (cpu_raise_interrupt cfg v s)) = cpu_gdt s"
  by (simp add: cpu_raise_interrupt_eq)

lemma exec_call_null:
  assumes "MAX_CPU_COUNT cfg \<le> 8185" and "cpu_gdt s ! 0 = 0"
  shows "cpu_gdt (exec_call cfg c s) ! 0 = 0"
proof (cases c)
  case Call_cpu_init
  then show ?thesis by (simp add: cpu_init_fields cpu_setup_gdt_null [OF assms(1)])
next
  case (Call_cpu_raise_interrupt v)
  then show ?thesis using assms(2) by (simp add: cpu_raise_interrupt_cpu_gdt)
qed

lemma exec_calls_null:
  assumes "MAX_CPU_COUNT cfg \<le> 8185"
  shows "cpu_gdt s ! 0 = 0 \<Longrightarrow> cpu_gdt (exec_calls cfg calls s) ! 0 = 0"
proof (induction calls arbitrary: s)
  case Nil
  then show ?case by simp
next
  case (Cons c rest)
  from Cons.prems have "cpu_gdt (exec_call cfg c s) ! 0 = 0"
    by (rule exec_call_null [OF assms])
  then show ?case using Cons.IH by simp
qed

lemma boot_state_null: "cpu_gdt (boot_state cfg r) ! 0 = 0"
  by (simp add: boot_state_def GDT_ENTRY_COUNT_def)

text \<open>
  Claim C7. Provided the segment table fits (at most 8185 cores): entry 0 of the segment
  table is zero in static storage before setup, it is zero after \<^verbatim>\<open>_cpu_setup_gdt\<close> from any
  state, it is zero after any sequence of calls to \<^verbatim>\<open>cpu_init\<close> and
  \<^verbatim>\<open>cpu_raise_interrupt\<close>, the per-core loop of the setup leaves it alone from any iteration
  on and the other operations do not write the table at all; and after setup every entry
  from 1 to the last (the six fixed descriptors and one task descriptor per core) has its
  present bit set.
\<close>

theorem null_descriptor_and_present_bits:
  assumes "MAX_CPU_COUNT cfg \<le> 8185"
  shows "cpu_gdt (boot_state cfg r) ! 0 = 0 \<and>
         cpu_gdt (cpu_setup_gdt cfg s) ! 0 = 0 \<and>
         cpu_gdt (exec_calls cfg calls (boot_state cfg r)) ! 0 = 0 \<and>
         (0 < length (cpu_gdt s) \<longrightarrow>
            cpu_gdt (gdt_tss_loop cfg ty fl i s) ! 0 = cpu_gdt s ! 0) \<and>
         cpu_gdt (cpu_setup_idt cfg s) = cpu_gdt s \<and>
         cpu_gdt (cpu_setup_tss cfg s) = cpu_gdt s \<and>
         cpu_gdt (snd (cpu_raise_interrupt cfg v s)) = cpu_gdt s \<and>
         length (cpu_gdt (cpu_setup_gdt cfg s)) = GDT_ENTRY_COUNT cfg \<and>
         (\<forall>k. 1 \<le> k \<and> k < GDT_ENTRY_COUNT cfg \<longrightarrow>
            gdt_entry_present (cpu_gdt (cpu_setup_gdt cfg s) ! k))"
proof (intro conjI allI impI)
  show "cpu_gdt (boot_state cfg r) ! 0 = 0" by (rule boot_state_null)
  show "cpu_gdt (cpu_setup_gdt cfg s) ! 0 = 0" by (rule cpu_setup_gdt_null [OF assms])
  show "cpu_gdt (exec_calls cfg calls (boot_state cfg r)) ! 0 = 0"
    by (rule exec_calls_null [OF assms boot_state_null])
  show "cpu_gdt (cpu_setup_idt cfg s) = cpu_gdt s" by (simp add: cpu_setup_idt_eq)
  show "cpu_gdt (cpu_setup_tss cfg s) = cpu_gdt s" by (simp add: cpu_setup_tss_eq)
  show "cpu_gdt (snd (cpu_raise_interrupt cfg v s)) = cpu_gdt s"
    by (rule cpu_raise_interrupt_cpu_gdt)
  show "length (cpu_gdt (cpu_setup_gdt cfg s)) = GDT_ENTRY_COUNT cfg"
    by (rule cpu_setup_gdt_length [OF assms])
next
  assume "0 < length (cpu_gdt s)"
  then show "cpu_gdt (gdt_tss_loop cfg ty fl i s) ! 0 = cpu_gdt s ! 0"
    by (rule gdt_tss_loop_null [OF assms])
next
  fix k assume "1 \<le> k \<and> k < GDT_ENTRY_COUNT cfg"
  then show "gdt_entry_present (cpu_gdt (cpu_setup_gdt cfg s) ! k)"
    using cpu_setup_gdt_present [OF assms] by blast
qed

theorem null_descriptor_and_present_bits_witness:
  "MAX_CPU_COUNT cfg4 \<le> 8185 \<and>
   cpu_gdt boot4 ! 0 = 0 \<and>
   cpu_gdt (cpu_setup_gdt cfg4 boot4) ! 0 = 0 \<and>
   cpu_gdt (exec_calls cfg4 [Call_cpu_init, Call_cpu_raise_interrupt 3] boot4) ! 0 = 0 \<and>
   length (cpu_gdt (cpu_setup_gdt cfg4 boot4)) = 11 \<and>
   gdt_entry_present (cpu_gdt (cpu_setup_gdt cfg4 boot4) ! 1) \<and>
   gdt_entry_present (cpu_gdt (cpu_setup_gdt cfg4 boot4) ! 6) \<and>
   gdt_entry_present (cpu_gdt (cpu_setup_gdt cfg4 boot4) ! 7) \<and>
   gdt_entry_present (cpu_gdt (cpu_setup_gdt cfg4 boot4) ! 10)"
proof -
  have h: "MAX_CPU_COUNT cfg4 \<le> 8185" by (simp add: cfg4_def)
  have n: "GDT_ENTRY_COUNT cfg4 = 11" by (simp add: GDT_ENTRY_COUNT_def cfg4_def)
  show ?thesis
    using h null_descriptor_and_present_bits
      [OF h, of regs0 boot4 "[Call_cpu_init, Call_cpu_raise_interrupt 3]"]
    by (simp add: n boot4_def)
qed


section \<open>The task register\<close>

lemma tss_selector16:
  assumes "i < 8185"
  shows "unat (ucast (tss_descriptor_selector i) :: 16 word) = 56 + 8 * i"
proof -
  have "tss_descriptor_selector i = (of_nat (56 + 8 * i) :: 32 word)"
    by (simp add: tss_descriptor_selector_def TSS_SEGMENT_def)
  moreover have "unat (ucast (of_nat (56 + 8 * i) :: 32 word) :: 16 word) = 56 + 8 * i"
    by (rule unat_ucast16_of_nat) (use assms in simp)
  ultimately show ?thesis by (simp only:)
qed

lemma tss_selector_index:
  assumes "i < 8185"
  shows "unat (tss_descriptor_selector i div 8) = 7 + i"
  unfolding tss_descriptor_selector_def by (rule tss_index [OF assms])

lemma TSS_SEGMENT_selector0: "TSS_SEGMENT = tss_descriptor_selector 0"
  by (simp add: tss_descriptor_selector_def)

text \<open>
  Claim C9 (as amended). \<^verbatim>\<open>_cpu_setup_tss\<close> takes no core index and reads none: whatever
  core runs it, it loads the task register with \<^verbatim>\<open>TSS_SEGMENT\<close>, the selector of the task
  descriptor of core 0. For a core index \<^verbatim>\<open>i\<close> below the core count (at most 8185 cores),
  the descriptor of core \<^verbatim>\<open>i\<close>, the one whose base is the address of \<^verbatim>\<open>cpu_tss[i]\<close>, sits
  at selector \<^verbatim>\<open>TSS_SEGMENT + i * 8\<close>, and the selector loaded is this one exactly when
  \<^verbatim>\<open>i = 0\<close>.
\<close>

theorem cpu_setup_tss_task_register:
  assumes "MAX_CPU_COUNT cfg \<le> 8185" and "i < MAX_CPU_COUNT cfg"
  shows "reg_tr (cpu_setup_tss cfg s) = ucast TSS_SEGMENT \<and>
         reg_tr (cpu_setup_tss cfg s) = ucast (tss_descriptor_selector 0) \<and>
         (reg_tr (cpu_setup_tss cfg s) = ucast (tss_descriptor_selector i) \<longleftrightarrow> i = 0) \<and>
         gdt_entry_base (cpu_gdt (cpu_setup_gdt cfg t) ! unat (tss_descriptor_selector i div 8))
           = cpu_tss_addr cfg + of_nat i * of_nat sizeof_cpu_tss_entry_t"
proof -
  from assms have i: "i < 8185" by simp
  have tr: "reg_tr (cpu_setup_tss cfg s) = ucast (tss_descriptor_selector 0)"
    by (simp add: cpu_setup_tss_eq TSS_SEGMENT_selector0)
  have "(ucast (tss_descriptor_selector 0) :: 16 word) = ucast (tss_descriptor_selector i)
        \<longleftrightarrow> i = 0"
  proof
    assume "(ucast (tss_descriptor_selector 0) :: 16 word) = ucast (tss_descriptor_selector i)"
    then have "unat (ucast (tss_descriptor_selector 0) :: 16 word)
               = unat (ucast (tss_descriptor_selector i) :: 16 word)" by simp
    then show "i = 0" using tss_selector16 [OF i] tss_selector16 [of 0] by simp
  next
    assume "i = 0"
    then show "(ucast (tss_descriptor_selector 0) :: 16 word) = ucast (tss_descriptor_selector i)"
      by simp
  qed
  moreover have "gdt_entry_base (cpu_gdt (cpu_setup_gdt cfg t) ! unat (tss_descriptor_selector i div 8))
           = cpu_tss_addr cfg + of_nat i * of_nat sizeof_cpu_tss_entry_t"
    using assms(2)
    by (simp add: tss_selector_index [OF i] cpu_setup_gdt_cpu_gdt [OF assms(1)] nth_append
        gdt_entry_base_format)
  ultimately show ?thesis
    using tr by (simp add: TSS_SEGMENT_selector0)
qed

theorem cpu_setup_tss_task_register_witness:
  "MAX_CPU_COUNT cfg4 \<le> 8185 \<and> 1 < MAX_CPU_COUNT cfg4 \<and>
   reg_tr (cpu_setup_tss cfg4 boot4) = 0x38 \<and>
   reg_tr (cpu_setup_tss cfg4 boot4) \<noteq> ucast (tss_descriptor_selector 1) \<and>
   gdt_entry_base (cpu_gdt (cpu_setup_gdt cfg4 boot4) ! unat (tss_descriptor_selector 1 div 8))
     = 0xE0158968"
proof -
  have h: "MAX_CPU_COUNT cfg4 \<le> 8185" and k: "1 < MAX_CPU_COUNT cfg4"
    by (simp_all add: cfg4_def)
  have a: "cpu_tss_addr cfg4 = 0xE0158900" by (simp add: cfg4_def)
  show ?thesis
    using h k cpu_setup_tss_task_register [OF h k, of boot4 boot4]
    by (auto simp add: a TSS_SEGMENT_def sizeof_cpu_tss_entry_t_def)
qed

text \<open>
  With four cores, the selector loaded is not the selector of the task descriptor of
  core 1.
\<close>

theorem cpu_setup_tss_task_register_counterexample:
  "reg_tr (cpu_setup_tss cfg4 boot4) \<noteq> ucast (tss_descriptor_selector 1)"
proof -
  have "reg_tr (cpu_setup_tss cfg4 boot4) = 0x38"
    by (simp add: cpu_setup_tss_eq TSS_SEGMENT_def)
  moreover have "(ucast (tss_descriptor_selector 1) :: 16 word) = 0x40"
    by (simp add: tss_descriptor_selector_def TSS_SEGMENT_def)
  ultimately show ?thesis by simp
qed


section \<open>The tables of the concrete configuration\<close>

text \<open>
  The four-core configuration, evaluated: the six fixed descriptors are the usual flat
  segments, followed by the four task descriptors; a gate holds the selector 0x08 and the
  access byte 0x8E around the two halves of its handler address.
\<close>

lemma fixed_descriptor_values:
  "format_gdt_entry KERNEL_CODE_SEGMENT_BASE_32 KERNEL_CODE_SEGMENT_LIMIT_32
       (ucast (GDT_TYPE_EXECUTABLE OR GDT_TYPE_READABLE OR GDT_TYPE_PROTECTED))
       (GDT_FLAG_GRANULARITY_4K OR GDT_FLAG_32_BIT_SEGMENT OR GDT_FLAG_PL0 OR
        GDT_FLAG_SEGMENT_PRESENT OR GDT_FLAG_CODE_TYPE) = 0x00CF9A000000FFFF"
  "format_gdt_entry KERNEL_DATA_SEGMENT_BASE_32 KERNEL_DATA_SEGMENT_LIMIT_32
       (ucast (GDT_TYPE_WRITABLE OR GDT_TYPE_GROW_DOWN))
       (GDT_FLAG_GRANULARITY_4K OR GDT_FLAG_32_BIT_SEGMENT OR GDT_FLAG_PL0 OR
        GDT_FLAG_SEGMENT_PRESENT OR GDT_FLAG_DATA_TYPE) = 0x00CF92000000FFFF"
  "format_gdt_entry KERNEL_CODE_SEGMENT_BASE_16 KERNEL_CODE_SEGMENT_LIMIT_16
       (ucast (GDT_TYPE_EXECUTABLE OR GDT_TYPE_READABLE OR GDT_TYPE_PROTECTED))
       (GDT_FLAG_GRANULARITY_4K OR GDT_FLAG_16_BIT_SEGMENT OR GDT_FLAG_PL0 OR
        GDT_FLAG_SEGMENT_PRESENT OR GDT_FLAG_CODE_TYPE) = 0x008F9A000000FFFF"
  "format_gdt_entry KERNEL_DATA_SEGMENT_BASE_16 KERNEL_DATA_SEGMENT_LIMIT_16
       (ucast (GDT_TYPE_WRITABLE OR GDT_TYPE_GROW_DOWN))
       (GDT_FLAG_GRANULARITY_4K OR GDT_FLAG_16_BIT_SEGMENT OR GDT_FLAG_PL0 OR
        GDT_FLAG_SEGMENT_PRESENT OR GDT_FLAG_DATA_TYPE) = 0x008F92000000FFFF"
  "format_gdt_entry USER_CODE_SEGMENT_BASE_32 USER_CODE_SEGMENT_LIMIT_32
       (ucast (GDT_TYPE_EXECUTABLE OR GDT_TYPE_READABLE OR GDT_TYPE_PROTECTED))
       (GDT_FLAG_GRANULARITY_4K OR GDT_FLAG_32_BIT_SEGMENT OR GDT_FLAG_PL3 OR
        GDT_FLAG_SEGMENT_PRESENT OR GDT_FLAG_CODE_TYPE) = 0x00CFFA000000FFFF"
  "format_gdt_entry USER_DATA_SEGMENT_BASE_32 USER_DATA_SEGMENT_LIMIT_32
       (ucast (GDT_TYPE_WRITABLE OR GDT_TYPE_GROW_DOWN))
       (GDT_FLAG_GRANULARITY_4K OR GDT_FLAG_32_BIT_SEGMENT OR GDT_FLAG_PL3 OR
        GDT_FLAG_SEGMENT_PRESENT OR GDT_FLAG_DATA_TYPE) = 0x00CFF2000000FFFF"
  by (simp_all add: format_gdt_entry_def Let_def
      KERNEL_CODE_SEGMENT_BASE_32_def KERNEL_CODE_SEGMENT_LIMIT_32_def
      KERNEL_DATA_SEGMENT_BASE_32_def KERNEL_DATA_SEGMENT_LIMIT_32_def
      KERNEL_CODE_SEGMENT_BASE_16_def KERNEL_CODE_SEGMENT_LIMIT_16_def
      KERNEL_DATA_SEGMENT_BASE_16_def KERNEL_DATA_SEGMENT_LIMIT_16_def
      USER_CODE_SEGMENT_BASE_32_def USER_CODE_SEGMENT_LIMIT_32_def
      USER_DATA_SEGMENT_BASE_32_def USER_DATA_SEGMENT_LIMIT_32_def
      GDT_TYPE_EXECUTABLE_def GDT_TYPE_READABLE_def GDT_TYPE_PROTECTED_def
      GDT_TYPE_WRITABLE_def GDT_TYPE_GROW_DOWN_def
      GDT_FLAG_GRANULARITY_4K_def GDT_FLAG_32_BIT_SEGMENT_def GDT_FLAG_16_BIT_SEGMENT_def
      GDT_FLAG_PL0_def GDT_FLAG_PL3_def GDT_FLAG_SEGMENT_PRESENT_def
      GDT_FLAG_CODE_TYPE_def GDT_FLAG_DATA_TYPE_def)

lemma task_descriptor_value:
  "format_gdt_entry (0xE0158900 + 104) 104
       (ucast (GDT_TYPE_ACCESSED OR GDT_TYPE_EXECUTABLE))
       (GDT_FLAG_32_BIT_SEGMENT OR GDT_FLAG_SEGMENT_PRESENT OR GDT_FLAG_PL0) = 0xE040891589680068"
  by (simp add: format_gdt_entry_def Let_def GDT_TYPE_ACCESSED_def GDT_TYPE_EXECUTABLE_def
      GDT_FLAG_32_BIT_SEGMENT_def GDT_FLAG_PL0_def GDT_FLAG_SEGMENT_PRESENT_def)

lemma gate_value:
  "format_idt_entry 0xE0108FF0 IDT_TYPE_INT_GATE (IDT_FLAG_PRESENT OR IDT_FLAG_PL0)
     = 0xE0108E0000088FF0"
  by (simp add: format_idt_entry_def Let_def KERNEL_CS_32_def IDT_TYPE_INT_GATE_def
      IDT_FLAG_PRESENT_def IDT_FLAG_PL0_def)

lemma cfg4_segment_table:
  "cpu_gdt (cpu_setup_gdt cfg4 s) ! 1 = 0x00CF9A000000FFFF"
  "cpu_gdt (cpu_setup_gdt cfg4 s) ! 2 = 0x00CF92000000FFFF"
  "cpu_gdt (cpu_setup_gdt cfg4 s) ! 5 = 0x00CFFA000000FFFF"
  "cpu_gdt (cpu_setup_gdt cfg4 s) ! 6 = 0x00CFF2000000FFFF"
  "cpu_gdt (cpu_setup_gdt cfg4 s) ! 8 = 0xE040891589680068"
proof -
  have h: "MAX_CPU_COUNT cfg4 \<le> 8185" by (simp add: cfg4_def)
  have m: "MAX_CPU_COUNT cfg4 = 4" "cpu_tss_addr cfg4 = 0xE0158900" by (simp_all add: cfg4_def)
  have u: "[0..<4] = [0, 1, 2, 3]" by (simp add: upt_rec)
  have t: "(0xE0158900 + 104 :: 32 word) = 0xE0158968" by simp
  show "cpu_gdt (cpu_setup_gdt cfg4 s) ! 1 = 0x00CF9A000000FFFF"
    "cpu_gdt (cpu_setup_gdt cfg4 s) ! 2 = 0x00CF92000000FFFF"
    "cpu_gdt (cpu_setup_gdt cfg4 s) ! 5 = 0x00CFFA000000FFFF"
    "cpu_gdt (cpu_setup_gdt cfg4 s) ! 6 = 0x00CFF2000000FFFF"
    by (simp_all only: cpu_setup_gdt_cpu_gdt [OF h] fixed_descriptor_values) simp_all
  show "cpu_gdt (cpu_setup_gdt cfg4 s) ! 8 = 0xE040891589680068"
    using task_descriptor_value
    by (simp add: cpu_setup_gdt_cpu_gdt [OF h] m u sizeof_cpu_tss_entry_t_def)
qed


end
